theory Spec2Isabelle
  imports Main "HOL-Library.AList" "HOL-Library.Monad_Syntax"
begin

section \<open>The section-identification batch (transform/4\_identify\_sections.py)\<close>

text \<open>
  The program reads a JSON array of publications, asks a language model for the page
  ranges of the sections of every document that has no entry in the output file yet,
  and rewrites the output file with the old entries and the new ones.

  Python values are modelled as follows. A \<open>dict\<close> with string keys is an association
  list in insertion order, looked up with \<^const>\<open>map_of\<close> and assigned to with
  \<^const>\<open>AList.update\<close> (an existing key keeps its place, a new key goes last, as in
  Python). A parsed JSON object has no repeated key. Exceptions are values of
  \<open>exn\<close>; all of them are instances of Python's \<open>Exception\<close> (interrupts such as
  \<open>KeyboardInterrupt\<close> and task cancellation are not modelled). The file system,
  the log and the language model are an explicit \<open>world\<close> that every effectful
  function takes and returns.
\<close>

subsection \<open>JSON values and dictionaries\<close>

text \<open>What \<open>json.load\<close> returns. Numbers with a fractional part are not represented.\<close>

datatype json =
    JNull
  | JBool bool
  | JInt int
  | JStr string
  | JList "json list"
  | JDict "(string \<times> json) list"

type_synonym 'a dict = "(string \<times> 'a) list"

text \<open>\<open>key in d\<close>\<close>

definition dict_contains :: "'a dict \<Rightarrow> string \<Rightarrow> bool" where
  "dict_contains d k = (map_of d k \<noteq> None)"

subsection \<open>The pydantic models (lines 25--58)\<close>

record TextPage =
  page_number :: int
  text_content :: string

record TextDocument =
  doc_id :: string
  pages :: "TextPage list"

record TextPublication =
  pub_id :: string
  documents :: "TextDocument list"

record SectionPageRange =
  start_page :: int
  end_page :: int

record Sections =
  front_matter :: "SectionPageRange option"
  contents :: "SectionPageRange option"
  list_of_figures :: "SectionPageRange option"
  list_of_tables :: "SectionPageRange option"
  body :: "SectionPageRange option"
  references :: "SectionPageRange option"
  end_notes :: "SectionPageRange option"
  annexes :: "SectionPageRange option"

text \<open>
  Validation by pydantic (version 2: the source calls \<open>model_validate\<close>,
  \<open>model_validate_json\<close> and \<open>model_dump\<close>) returns the model, or \<open>None\<close> where
  pydantic raises \<open>ValidationError\<close>. A field declared with \<open>Field(...)\<close> or with
  \<open>Field(description=...)\<close> and no default is required; a field with
  \<open>default_factory=list\<close> may be absent; keys that are no field are ignored; a
  \<open>str\<close> field takes a JSON string, a \<open>List\<close> field a JSON array, a model-typed
  field a JSON object. How pydantic reads an \<open>int\<close> field (it also accepts some
  values that are not JSON integers) is the library's business: it is the parameter
  \<open>as_int\<close> of every validator.
\<close>

definition validate_str :: "json \<Rightarrow> string option" where
  "validate_str j = (case j of JStr s \<Rightarrow> Some s | _ \<Rightarrow> None)"

definition validate_list :: "(json \<Rightarrow> 'a option) \<Rightarrow> json \<Rightarrow> 'a list option" where
  "validate_list f j = (case j of JList xs \<Rightarrow> those (map f xs) | _ \<Rightarrow> None)"

text \<open>A list field with \<open>default_factory=list\<close>.\<close>

definition validate_list_field ::
  "(json \<Rightarrow> 'a option) \<Rightarrow> json dict \<Rightarrow> string \<Rightarrow> 'a list option" where
  "validate_list_field f d k =
     (case map_of d k of None \<Rightarrow> Some [] | Some v \<Rightarrow> validate_list f v)"

definition validate_TextPage :: "(json \<Rightarrow> int option) \<Rightarrow> json \<Rightarrow> TextPage option" where
  "validate_TextPage as_int j =
     (case j of
        JDict d \<Rightarrow>
          do {
            n \<leftarrow> map_of d ''page_number'' \<bind> as_int;
            t \<leftarrow> map_of d ''text_content'' \<bind> validate_str;
            Some \<lparr>page_number = n, text_content = t\<rparr>
          }
      | _ \<Rightarrow> None)"

definition validate_TextDocument ::
  "(json \<Rightarrow> int option) \<Rightarrow> json \<Rightarrow> TextDocument option" where
  "validate_TextDocument as_int j =
     (case j of
        JDict d \<Rightarrow>
          do {
            i \<leftarrow> map_of d ''doc_id'' \<bind> validate_str;
            ps \<leftarrow> validate_list_field (validate_TextPage as_int) d ''pages'';
            Some \<lparr>doc_id = i, pages = ps\<rparr>
          }
      | _ \<Rightarrow> None)"

definition validate_TextPublication ::
  "(json \<Rightarrow> int option) \<Rightarrow> json \<Rightarrow> TextPublication option" where
  "validate_TextPublication as_int j =
     (case j of
        JDict d \<Rightarrow>
          do {
            i \<leftarrow> map_of d ''pub_id'' \<bind> validate_str;
            ds \<leftarrow> validate_list_field (validate_TextDocument as_int) d ''documents'';
            Some \<lparr>pub_id = i, documents = ds\<rparr>
          }
      | _ \<Rightarrow> None)"

definition validate_SectionPageRange ::
  "(json \<Rightarrow> int option) \<Rightarrow> json \<Rightarrow> SectionPageRange option" where
  "validate_SectionPageRange as_int j =
     (case j of
        JDict d \<Rightarrow>
          do {
            s \<leftarrow> map_of d ''start_page'' \<bind> as_int;
            e \<leftarrow> map_of d ''end_page'' \<bind> as_int;
            Some \<lparr>start_page = s, end_page = e\<rparr>
          }
      | _ \<Rightarrow> None)"

text \<open>
  A field of \<open>Sections\<close>, of type \<open>SectionPageRange | None\<close> with no default: the key
  must be there, \<open>null\<close> is the value \<open>None\<close>, anything else must be a page range.
\<close>

definition validate_section_field ::
  "(json \<Rightarrow> int option) \<Rightarrow> json dict \<Rightarrow> string \<Rightarrow> SectionPageRange option option" where
  "validate_section_field as_int d k =
     (case map_of d k of
        None \<Rightarrow> None
      | Some JNull \<Rightarrow> Some None
      | Some v \<Rightarrow> map_option Some (validate_SectionPageRange as_int v))"

definition validate_Sections :: "(json \<Rightarrow> int option) \<Rightarrow> json \<Rightarrow> Sections option" where
  "validate_Sections as_int j =
     (case j of
        JDict d \<Rightarrow>
          do {
            fm \<leftarrow> validate_section_field as_int d ''front_matter'';
            co \<leftarrow> validate_section_field as_int d ''contents'';
            lf \<leftarrow> validate_section_field as_int d ''list_of_figures'';
            lt \<leftarrow> validate_section_field as_int d ''list_of_tables'';
            bo \<leftarrow> validate_section_field as_int d ''body'';
            re \<leftarrow> validate_section_field as_int d ''references'';
            en \<leftarrow> validate_section_field as_int d ''end_notes'';
            an \<leftarrow> validate_section_field as_int d ''annexes'';
            Some \<lparr>front_matter = fm, contents = co, list_of_figures = lf,
                  list_of_tables = lt, body = bo, references = re, end_notes = en,
                  annexes = an\<rparr>
          }
      | _ \<Rightarrow> None)"

text \<open>The eight field names of \<open>Sections\<close>, in declaration order.\<close>

definition section_keys :: "string list" where
  "section_keys = [''front_matter'', ''contents'', ''list_of_figures'', ''list_of_tables'',
     ''body'', ''references'', ''end_notes'', ''annexes'']"

text \<open>\<open>model_dump\<close>: the model as a plain dictionary.\<close>

definition dump_range :: "SectionPageRange option \<Rightarrow> json" where
  "dump_range r =
     (case r of
        None \<Rightarrow> JNull
      | Some p \<Rightarrow> JDict [(''start_page'', JInt (start_page p)), (''end_page'', JInt (end_page p))])"

definition model_dump :: "Sections \<Rightarrow> json" where
  "model_dump s = JDict
     [(''front_matter'', dump_range (front_matter s)),
      (''contents'', dump_range (contents s)),
      (''list_of_figures'', dump_range (list_of_figures s)),
      (''list_of_tables'', dump_range (list_of_tables s)),
      (''body'', dump_range (body s)),
      (''references'', dump_range (references s)),
      (''end_notes'', dump_range (end_notes s)),
      (''annexes'', dump_range (annexes s))]"

subsection \<open>The world: language model, clock, log and files\<close>

datatype exn =
    ApiError
  | ValueError
  | TypeError
  | ValidationError
  | RetryError
  | OSError

text \<open>
  What one call of \<open>acompletion\<close> does: it raises, it returns a
  \<open>CustomStreamWrapper\<close>, or it returns a \<open>ModelResponse\<close>. Of a response only the
  text \<open>response['choices'][0]['message']['content']\<close> is used, and only by
  \<open>Sections.model_validate_json\<close>; \<open>ModelResponse None\<close> is a response whose content
  cannot be read or is not JSON text, \<open>ModelResponse (Some j)\<close> one whose content is the
  JSON text of \<open>j\<close>.
\<close>

datatype completion =
    Raises exn
  | CustomStreamWrapper
  | ModelResponse "json option"

text \<open>The four \<open>logger.error\<close> calls (lines 101, 138, 186, 189), with what they report.\<close>

datatype log_error =
    TextProcessingError exn
  | PublicationParseError
  | FailedDocs "string list"
  | ProcessingError exn

datatype 'a artifact = Missing | Unreadable | Holds 'a

text \<open>
  \<open>calls\<close> lists the documents \<open>acompletion\<close> was called for, \<open>sleeps\<close> the waits of
  the retry decorator, \<open>errors\<close> the error log, each in order of occurrence.
  The input file holds any JSON value. The output file, when it is there and readable,
  holds a JSON object, as the program writes it; \<open>writable\<close> tells whether it can be
  opened for writing. Messages logged at level info or debug are not modelled.
\<close>

record world =
  calls :: "TextDocument list"
  sleeps :: "nat list"
  errors :: "log_error list"
  input_file :: "json artifact"
  output_file :: "json dict artifact"
  writable :: bool

text \<open>
  The language model is a function of the number of calls made before and of the
  document: the answer to a call may depend on when it is made.
\<close>

type_synonym llm = "nat \<Rightarrow> TextDocument \<Rightarrow> completion"

subsection \<open>The retry decorator (line 63)\<close>

text \<open>
  \<open>tenacity\<close>'s \<open>wait_exponential(multiplier, min, max)\<close> waits
  \<open>multiplier * 2 ** (attempt - 1)\<close> after the attempt numbered \<open>attempt\<close> (from 1),
  no less than \<open>min\<close> and no more than \<open>max\<close>.
\<close>

definition wait_exponential :: "nat \<Rightarrow> nat \<Rightarrow> nat \<Rightarrow> nat \<Rightarrow> nat" where
  "wait_exponential multiplier min_wait max_wait attempt =
     max (max 0 min_wait) (min (multiplier * 2 ^ (attempt - 1)) max_wait)"

text \<open>
  \<open>@retry(stop=stop_after_attempt(n), wait=...)\<close>: the decorated function is called;
  what it returns is returned; when it raises, the decorator stops with \<open>RetryError\<close>
  if this was attempt \<open>n\<close> or later, and sleeps and calls again otherwise.
\<close>

function retrying ::
  "nat \<Rightarrow> (nat \<Rightarrow> nat) \<Rightarrow> (world \<Rightarrow> (exn + 'a) \<times> world) \<Rightarrow> nat \<Rightarrow> world \<Rightarrow> (exn + 'a) \<times> world" where
  "retrying stop_after wait f attempt w =
     (case f w of
        (Inr r, w') \<Rightarrow> (Inr r, w')
      | (Inl e, w') \<Rightarrow>
          if stop_after \<le> attempt then (Inl RetryError, w')
          else retrying stop_after wait f (Suc attempt) (w'\<lparr>sleeps := sleeps w' @ [wait attempt]\<rparr>))"
  by pat_completeness auto
termination
  by (relation "measure (\<lambda>(stop_after, wait, f, attempt, w). stop_after - attempt)") auto

subsection \<open>\<open>process_text\<close> (lines 63--102)\<close>

text \<open>
  The \<open>try\<close> block after the call has returned (lines 94--99): a stream wrapper raises
  \<open>ValueError\<close>, content that is not a valid \<open>Sections\<close> payload raises.
\<close>

definition attempt_outcome :: "(json \<Rightarrow> int option) \<Rightarrow> completion \<Rightarrow> exn + Sections" where
  "attempt_outcome as_int c =
     (case c of
        Raises e \<Rightarrow> Inl e
      | CustomStreamWrapper \<Rightarrow> Inl ValueError
      | ModelResponse content \<Rightarrow>
          (case content \<bind> validate_Sections as_int of
             None \<Rightarrow> Inl ValidationError
           | Some s \<Rightarrow> Inr s))"

text \<open>
  The decorated function: one call of the model, and \<open>except Exception\<close> around all of
  it, which logs the error and returns \<open>None\<close>.
\<close>

definition process_text_body ::
  "(json \<Rightarrow> int option) \<Rightarrow> llm \<Rightarrow> TextDocument \<Rightarrow> world \<Rightarrow> (exn + Sections dict option) \<times> world" where
  "process_text_body as_int model text_document w =
     (let response = model (length (calls w)) text_document;
          w1 = w\<lparr>calls := calls w @ [text_document]\<rparr>
      in case attempt_outcome as_int response of
           Inr s \<Rightarrow> (Inr (Some [(doc_id text_document, s)]), w1)
         | Inl e \<Rightarrow> (Inr None, w1\<lparr>errors := errors w1 @ [TextProcessingError e]\<rparr>))"

definition process_text ::
  "(json \<Rightarrow> int option) \<Rightarrow> llm \<Rightarrow> TextDocument \<Rightarrow> world \<Rightarrow> (exn + Sections dict option) \<times> world" where
  "process_text as_int model text_document =
     retrying 3 (wait_exponential 1 4 10) (process_text_body as_int model text_document) 1"

subsection \<open>\<open>process_documents_concurrently\<close> (lines 107--190)\<close>

text \<open>How the function ends: it returns, it re-raises after logging (lines 188--190), or
  it waits forever.\<close>

datatype status = Returned | Raised exn | Hangs

definition raise_logged :: "exn \<Rightarrow> world \<Rightarrow> status \<times> world" where
  "raise_logged e w = (Raised e, w\<lparr>errors := errors w @ [ProcessingError e]\<rparr>)"

text \<open>Lines 121--126: no output file is the empty dictionary. \<open>Unreadable\<close> is a file
  that cannot be opened or does not hold JSON; either way an exception is raised, recorded
  here as \<open>OSError\<close>.\<close>

definition load_existing :: "world \<Rightarrow> exn + json dict" where
  "load_existing w =
     (case output_file w of
        Missing \<Rightarrow> Inr []
      | Unreadable \<Rightarrow> Inl OSError
      | Holds d \<Rightarrow> Inr d)"

text \<open>What \<open>for pub_data in content\<close> iterates over: the items of an array, the keys of
  an object, the characters of a string; any other value is not iterable.\<close>

definition iterate :: "json \<Rightarrow> exn + json list" where
  "iterate j =
     (case j of
        JList xs \<Rightarrow> Inr xs
      | JDict d \<Rightarrow> Inr (map (\<lambda>kv. JStr (fst kv)) d)
      | JStr s \<Rightarrow> Inr (map (\<lambda>c. JStr [c]) s)
      | _ \<Rightarrow> Inl TypeError)"

text \<open>Lines 128--129 and the head of the loop of line 133.\<close>

definition load_content :: "world \<Rightarrow> exn + json list" where
  "load_content w =
     (case input_file w of
        Holds j \<Rightarrow> iterate j
      | _ \<Rightarrow> Inl OSError)"

text \<open>Lines 132--138: a publication that does not validate is logged and left out.\<close>

fun parse_publications ::
  "(json \<Rightarrow> int option) \<Rightarrow> json list \<Rightarrow> TextPublication list \<Rightarrow> world \<Rightarrow> TextPublication list \<times> world" where
  "parse_publications as_int [] publications w = (publications, w)"
| "parse_publications as_int (pub_data # rest) publications w =
     (case validate_TextPublication as_int pub_data of
        Some publication \<Rightarrow> parse_publications as_int rest (publications @ [publication]) w
      | None \<Rightarrow>
          parse_publications as_int rest publications
            (w\<lparr>errors := errors w @ [PublicationParseError]\<rparr>))"

text \<open>Lines 146--150: the documents with no entry in the existing headings.\<close>

definition all_documents :: "json dict \<Rightarrow> TextPublication list \<Rightarrow> TextDocument list" where
  "all_documents existing_headings publications =
     concat (map (\<lambda>pub. filter (\<lambda>doc. \<not> dict_contains existing_headings (doc_id doc))
                              (documents pub)) publications)"

text \<open>
  Lines 154--163. \<open>asyncio.gather\<close> returns the results in the order of the tasks, and
  raises what a task raises. The tasks are run here one after the other, in that order;
  which answer each call of the model gets is left to the model, which is arbitrary. In
  this sequential view \<open>process_with_semaphore\<close> is \<open>process_text\<close>; how the tasks
  share the semaphore is the subject of the limiter below.
\<close>

definition process_with_semaphore ::
  "(json \<Rightarrow> int option) \<Rightarrow> llm \<Rightarrow> TextDocument \<Rightarrow> world \<Rightarrow> (exn + Sections dict option) \<times> world" where
  "process_with_semaphore as_int model document w = process_text as_int model document w"

fun gather ::
  "(json \<Rightarrow> int option) \<Rightarrow> llm \<Rightarrow> TextDocument list \<Rightarrow> world \<Rightarrow> (exn + Sections dict option list) \<times> world" where
  "gather as_int model [] w = (Inr [], w)"
| "gather as_int model (document # rest) w =
     (case process_with_semaphore as_int model document w of
        (Inl e, w') \<Rightarrow> (Inl e, w')
      | (Inr r, w') \<Rightarrow>
          (case gather as_int model rest w' of
             (Inl e, w'') \<Rightarrow> (Inl e, w'')
           | (Inr rs, w'') \<Rightarrow> (Inr (r # rs), w'')))"

text \<open>Lines 166--174: the results that are not \<open>None\<close> are written over a copy of the
  existing headings, in order.\<close>

definition store_result :: "json dict \<Rightarrow> Sections dict \<Rightarrow> json dict" where
  "store_result headings_data result =
     foldl (\<lambda>h kv. AList.update (fst kv) (model_dump (snd kv)) h) headings_data result"

definition merge_results :: "json dict \<Rightarrow> Sections dict option list \<Rightarrow> json dict" where
  "merge_results existing_headings results =
     foldl store_result existing_headings (map the (filter (\<lambda>r. r \<noteq> None) results))"

text \<open>Line 184.\<close>

definition failed_docs :: "TextDocument list \<Rightarrow> json dict \<Rightarrow> string list" where
  "failed_docs documents_list headings_data =
     map doc_id (filter (\<lambda>doc. \<not> dict_contains headings_data (doc_id doc)) documents_list)"

text \<open>
  The whole function. \<open>asyncio.Semaphore\<close> raises \<open>ValueError\<close> for a negative value;
  with the value 0 no task is ever admitted, so \<open>gather\<close> never returns when there is
  a task.
\<close>

definition process_documents_concurrently ::
  "(json \<Rightarrow> int option) \<Rightarrow> llm \<Rightarrow> int \<Rightarrow> world \<Rightarrow> status \<times> world" where
  "process_documents_concurrently as_int model max_concurrency w =
     (case load_existing w of
        Inl e \<Rightarrow> raise_logged e w
      | Inr existing_headings \<Rightarrow>
          (case load_content w of
             Inl e \<Rightarrow> raise_logged e w
           | Inr content \<Rightarrow>
               (case parse_publications as_int content [] w of
                  (publications, w1) \<Rightarrow>
                    if max_concurrency < 0 then raise_logged ValueError w1
                    else
                      let documents_list = all_documents existing_headings publications in
                      if max_concurrency = 0 \<and> documents_list \<noteq> [] then (Hangs, w1)
                      else
                        (case gather as_int model documents_list w1 of
                           (Inl e, w2) \<Rightarrow> raise_logged e w2
                         | (Inr results, w2) \<Rightarrow>
                             let headings_data = merge_results existing_headings results in
                             if \<not> writable w2 then raise_logged OSError w2
                             else
                               let w3 = w2\<lparr>output_file := Holds headings_data\<rparr>;
                                   failed = failed_docs documents_list headings_data
                               in (Returned,
                                   if failed \<noteq> [] then w3\<lparr>errors := errors w3 @ [FailedDocs failed]\<rparr>
                                   else w3)))))"

subsection \<open>The semaphore (lines 143 and 154--157)\<close>

text \<open>
  \<open>process_with_semaphore\<close> as the event loop runs it: a task waits at
  \<open>async with semaphore\<close>, is admitted when the value of the semaphore is positive
  (the value goes down by one), runs \<open>process_text\<close>, and leaves the block by a return
  or by an exception (\<open>Done None\<close> or \<open>Done (Some e)\<close>); leaving gives the unit back.
  A schedule is the list of these events in the order the event loop performs them; an
  event that cannot happen in a state has no successor state.
\<close>

datatype task_state = Waiting | Running | Done "exn option"

record limiter =
  sem_value :: nat
  tasks :: "task_state list"

datatype event = Acquire nat | Exit nat "exn option"

fun step :: "event \<Rightarrow> limiter \<Rightarrow> limiter option" where
  "step (Acquire i) s =
     (if i < length (tasks s) \<and> tasks s ! i = Waiting \<and> 0 < sem_value s
      then Some (s\<lparr>sem_value := sem_value s - 1, tasks := (tasks s)[i := Running]\<rparr>)
      else None)"
| "step (Exit i out) s =
     (if i < length (tasks s) \<and> tasks s ! i = Running
      then Some (s\<lparr>sem_value := sem_value s + 1, tasks := (tasks s)[i := Done out]\<rparr>)
      else None)"

fun run_schedule :: "event list \<Rightarrow> limiter \<Rightarrow> limiter option" where
  "run_schedule [] s = Some s"
| "run_schedule (e # es) s = (case step e s of None \<Rightarrow> None | Some s' \<Rightarrow> run_schedule es s')"

text \<open>Line 143 and line 160: the semaphore with its initial value, one task per document.\<close>

definition start :: "nat \<Rightarrow> nat \<Rightarrow> limiter" where
  "start max_concurrency n = \<lparr>sem_value = max_concurrency, tasks = replicate n Waiting\<rparr>"

definition running :: "limiter \<Rightarrow> nat" where
  "running s = length (filter (\<lambda>t. t = Running) (tasks s))"

subsection \<open>Auxiliary functions of the proofs\<close>

text \<open>The entries of the results that are not \<open>None\<close>, in order.\<close>

definition successes :: "Sections dict option list \<Rightarrow> Sections dict" where
  "successes results = concat (map the (filter (\<lambda>r. r \<noteq> None) results))"

text \<open>The publications of the input that validate, and the errors logged for the others.\<close>

definition valid_publications :: "(json \<Rightarrow> int option) \<Rightarrow> json list \<Rightarrow> TextPublication list" where
  "valid_publications as_int content = List.map_filter (validate_TextPublication as_int) content"

definition parse_errors :: "(json \<Rightarrow> int option) \<Rightarrow> json list \<Rightarrow> log_error list" where
  "parse_errors as_int content =
     map (\<lambda>x. PublicationParseError) (filter (\<lambda>x. validate_TextPublication as_int x = None) content)"

text \<open>The outcomes of the attempts for a list of documents, the first call being call
  number \<open>n\<close>; the value \<open>process_text\<close> returns for an outcome; the errors it logs.\<close>

fun answers :: "(json \<Rightarrow> int option) \<Rightarrow> llm \<Rightarrow> nat \<Rightarrow> TextDocument list \<Rightarrow> (exn + Sections) list" where
  "answers as_int model n [] = []"
| "answers as_int model n (d # ds) =
     attempt_outcome as_int (model n d) # answers as_int model (Suc n) ds"

definition result_of :: "TextDocument \<Rightarrow> exn + Sections \<Rightarrow> Sections dict option" where
  "result_of d a = (case a of Inl e \<Rightarrow> None | Inr s \<Rightarrow> Some [(doc_id d, s)])"

definition results_of :: "TextDocument list \<Rightarrow> (exn + Sections) list \<Rightarrow> Sections dict option list" where
  "results_of ds as = map (\<lambda>da. result_of (fst da) (snd da)) (zip ds as)"

definition text_errors :: "(exn + Sections) list \<Rightarrow> log_error list" where
  "text_errors as =
     concat (map (\<lambda>a. case a of Inl e \<Rightarrow> [TextProcessingError e] | Inr s \<Rightarrow> []) as)"

text \<open>The existing headings of a world whose output file is absent or readable.\<close>

definition existing_of :: "world \<Rightarrow> json dict" where
  "existing_of w = (case output_file w of Holds d \<Rightarrow> d | _ \<Rightarrow> [])"

text \<open>What the function does once both files are loaded: the existing headings \<open>E\<close>
  and the items \<open>content\<close> of the input.\<close>

definition run_result :: "(json \<Rightarrow> int option) \<Rightarrow> llm \<Rightarrow> int \<Rightarrow> world \<Rightarrow> json dict \<Rightarrow> json list \<Rightarrow> status \<times> world" where
  "run_result as_int model max_concurrency w E content =
     (let w1 = w\<lparr>errors := errors w @ parse_errors as_int content\<rparr>;
          ds = all_documents E (valid_publications as_int content);
          as = answers as_int model (length (calls w)) ds;
          w2 = w\<lparr>calls := calls w @ ds,
                 errors := errors w @ parse_errors as_int content @ text_errors as\<rparr>;
          H = merge_results E (results_of ds as)
      in if max_concurrency < 0 then raise_logged ValueError w1
         else if max_concurrency = 0 \<and> ds \<noteq> [] then (Hangs, w1)
         else if \<not> writable w then raise_logged OSError w2
         else (Returned,
               w\<lparr>calls := calls w @ ds,
                 errors := errors w @ parse_errors as_int content @ text_errors as @
                   (if failed_docs ds H = [] then [] else [FailedDocs (failed_docs ds H)]),
                 output_file := Holds H\<rparr>))"

text \<open>A model whose answer to a call does not depend on when the call is made: no
  external state changes between or during runs.\<close>

definition stationary :: "llm \<Rightarrow> bool" where
  "stationary model = (\<forall>i j d. model i d = model j d)"

subsection \<open>Example values\<close>

text \<open>An integer reader that takes JSON integers only, two documents, and a world with
  nothing logged, an input file of one publication holding both documents, and no
  output file.\<close>

definition json_int :: "json \<Rightarrow> int option" where
  "json_int j = (case j of JInt i \<Rightarrow> Some i | _ \<Rightarrow> None)"

definition doc_A :: TextDocument where
  "doc_A = \<lparr>doc_id = ''A'', pages = [\<lparr>page_number = 1, text_content = ''a''\<rparr>]\<rparr>"

definition doc_B :: TextDocument where
  "doc_B = \<lparr>doc_id = ''B'', pages = []\<rparr>"

definition json_doc_A :: json where
  "json_doc_A = JDict [(''doc_id'', JStr ''A''),
     (''pages'', JList [JDict [(''page_number'', JInt 1), (''text_content'', JStr ''a'')]])]"

definition json_doc_B :: json where
  "json_doc_B = JDict [(''doc_id'', JStr ''B'')]"

definition json_pub :: json where
  "json_pub = JDict [(''pub_id'', JStr ''P''), (''documents'', JList [json_doc_A, json_doc_B])]"

definition world0 :: world where
  "world0 = \<lparr>calls = [], sleeps = [], errors = [], input_file = Holds (JList [json_pub]),
     output_file = Missing, writable = True\<rparr>"

definition all_null :: json where
  "all_null = JDict (map (\<lambda>k. (k, JNull)) section_keys)"

definition no_sections :: Sections where
  "no_sections = \<lparr>front_matter = None, contents = None, list_of_figures = None,
     list_of_tables = None, body = None, references = None, end_notes = None,
     annexes = None\<rparr>"

definition body_omitted :: json where
  "body_omitted = JDict (map (\<lambda>k. (k, JNull)) (remove1 ''body'' section_keys))"

text \<open>A publication whose two documents have the same identifier, as JSON and as a model,
  and an existing store with an entry for \<open>A\<close>.\<close>

definition json_dup_pub :: json where
  "json_dup_pub = JDict [(''pub_id'', JStr ''D''), (''documents'', JList [json_doc_A, json_doc_A])]"

definition dup_pub :: TextPublication where
  "dup_pub = \<lparr>pub_id = ''D'', documents = [doc_A, doc_A]\<rparr>"

definition pub_AB :: TextPublication where
  "pub_AB = \<lparr>pub_id = ''P'', documents = [doc_A, doc_B]\<rparr>"

definition store_A :: "json dict" where
  "store_A = [(''A'', JNull)]"

text \<open>A model that answers every call with the payload whose eight keys are \<open>null\<close>, and
  one that raises for the document \<open>A\<close>; the example world with an entry for \<open>A\<close> in the
  output file, and with an item that is no publication in the input.\<close>

definition model_ok :: llm where
  "model_ok = (\<lambda>n d. ModelResponse (Some all_null))"

definition model_A_fails :: llm where
  "model_A_fails = (\<lambda>n d. if doc_id d = ''A'' then Raises ApiError else ModelResponse (Some all_null))"

definition world_A :: world where
  "world_A = world0\<lparr>output_file := Holds store_A\<rparr>"

definition world_bad :: world where
  "world_bad = world0\<lparr>input_file := Holds (JList [JNull, json_pub])\<rparr>"

text \<open>A second document with the identifier \<open>A\<close> (it has no page), a publication of
  the three documents, a model that fails exactly the documents that have a page, and the
  world with this publication as input.\<close>

definition doc_A2 :: TextDocument where
  "doc_A2 = \<lparr>doc_id = ''A'', pages = []\<rparr>"

definition json_doc_A2 :: json where
  "json_doc_A2 = JDict [(''doc_id'', JStr ''A'')]"

definition json_pub_AAB :: json where
  "json_pub_AAB = JDict [(''pub_id'', JStr ''P''),
     (''documents'', JList [json_doc_A, json_doc_A2, json_doc_B])]"

definition pub_AAB :: TextPublication where
  "pub_AAB = \<lparr>pub_id = ''P'', documents = [doc_A, doc_A2, doc_B]\<rparr>"

definition model_pages_fail :: llm where
  "model_pages_fail =
     (\<lambda>n d. if pages d = [] then ModelResponse (Some all_null) else Raises ApiError)"

definition world_AAB :: world where
  "world_AAB = world0\<lparr>input_file := Holds (JList [json_pub_AAB])\<rparr>"

text \<open>A publication that holds the valid document \<open>B\<close> and an object that is no document,
  and the world with this publication as the only item of the input.\<close>

definition json_pub_Q :: json where
  "json_pub_Q = JDict [(''pub_id'', JStr ''Q''), (''documents'', JList [json_doc_B, JDict []])]"

definition world_Q :: world where
  "world_Q = world0\<lparr>input_file := Holds (JList [json_pub_Q])\<rparr>"

section \<open>Properties\<close>

subsection \<open>The retry decorator and \<open>process_text\<close>\<close>

declare retrying.simps [simp del]

lemma retrying_returns:
  "f w = (Inr r, w') \<Longrightarrow> retrying n wt f k w = (Inr r, w')"
  by (subst retrying.simps) simp

text \<open>The decorator does retry a function that raises: three calls, two waits of 4.\<close>

lemma retry_decorator_three_attempts:
  assumes "\<And>w. f w = (Inl e, w\<lparr>calls := calls w @ [td]\<rparr>)"
  shows "retrying 3 (wait_exponential 1 4 10) f 1 w =
    (Inl RetryError, w\<lparr>calls := calls w @ [td, td, td], sleeps := sleeps w @ [4, 4]\<rparr>)"
proof -
  have "retrying 3 (wait_exponential 1 4 10) f 3
          (w\<lparr>calls := calls w @ [td, td], sleeps := sleeps w @ [4, 4]\<rparr>) =
        (Inl RetryError, w\<lparr>calls := calls w @ [td, td, td], sleeps := sleeps w @ [4, 4]\<rparr>)"
    by (subst retrying.simps) (simp add: assms)
  then have "retrying 3 (wait_exponential 1 4 10) f 2
          (w\<lparr>calls := calls w @ [td], sleeps := sleeps w @ [4]\<rparr>) =
        (Inl RetryError, w\<lparr>calls := calls w @ [td, td, td], sleeps := sleeps w @ [4, 4]\<rparr>)"
    by (subst retrying.simps) (simp add: assms wait_exponential_def eval_nat_numeral)
  then show ?thesis
    by (subst retrying.simps) (simp add: assms wait_exponential_def eval_nat_numeral)
qed

text \<open>The body catches every exception, so it returns.\<close>

lemma process_text_body_returns:
  "\<exists>r w'. process_text_body as_int model td w = (Inr r, w')"
  by (simp add: process_text_body_def Let_def split: sum.split)

text \<open>Hence the decorator never sees a failure: the decorated function is its body, run
  once.\<close>

lemma process_text_is_body:
  "process_text as_int model td w = process_text_body as_int model td w"
proof -
  obtain r w' where b: "process_text_body as_int model td w = (Inr r, w')"
    using process_text_body_returns by blast
  show ?thesis
    unfolding process_text_def by (simp add: retrying_returns b)
qed

text \<open>
  C1. The claim: an item whose call fails on every attempt is attempted exactly three
  times, with waits in between, and then gives a failure. The code: with a model that
  raises at every call, \<open>process_text\<close> calls it once, does not wait, logs the error and
  returns \<open>None\<close>.
\<close>

theorem process_text_attempts_once_on_failure:
  "process_text as_int (\<lambda>n d. Raises e) td w =
     (Inr None, w\<lparr>calls := calls w @ [td], errors := errors w @ [TextProcessingError e]\<rparr>)"
  by (simp add: process_text_is_body process_text_body_def attempt_outcome_def)

theorem process_text_attempts_once_witness:
  "calls (snd (process_text json_int (\<lambda>n d. Raises ApiError) doc_A world0)) = [doc_A] \<and>
   sleeps (snd (process_text json_int (\<lambda>n d. Raises ApiError) doc_A world0)) = [] \<and>
   fst (process_text json_int (\<lambda>n d. Raises ApiError) doc_A world0) = Inr None"
  using process_text_attempts_once_on_failure [of json_int ApiError doc_A world0]
  by (simp add: world0_def)

text \<open>
  C2. \<open>process_text\<close> never raises: whatever the call of the model does (it raises, it
  returns a stream wrapper, its content is unreadable or not a valid payload),
  \<open>process_text\<close> returns a value, and the value is \<open>None\<close> when the attempt
  failed.
\<close>

theorem process_text_never_raises:
  "\<exists>w'. process_text as_int model td w =
     (Inr (case attempt_outcome as_int (model (length (calls w)) td) of
             Inl e \<Rightarrow> None
           | Inr s \<Rightarrow> Some [(doc_id td, s)]), w')"
  by (simp add: process_text_is_body process_text_body_def Let_def split: sum.split)

theorem process_text_never_raises_witness:
  "\<exists>w'. process_text json_int (\<lambda>n d. CustomStreamWrapper) doc_A world0 = (Inr None, w')"
  using process_text_never_raises [of json_int "\<lambda>n d. CustomStreamWrapper" doc_A world0]
  by (simp add: attempt_outcome_def)

subsection \<open>Validation of the payload\<close>

lemma validate_Sections_iff:
  "validate_Sections as_int (JDict d) \<noteq> None \<longleftrightarrow>
     (\<forall>k\<in>set section_keys. validate_section_field as_int d k \<noteq> None)"
  by (auto simp: validate_Sections_def section_keys_def split: Option.bind_splits)

lemma validate_section_field_missing:
  "map_of d k = None \<Longrightarrow> validate_section_field as_int d k = None"
  by (simp add: validate_section_field_def)

lemma validate_section_field_null:
  "map_of d k = Some JNull \<Longrightarrow> validate_section_field as_int d k = Some None"
  by (simp add: validate_section_field_def)

lemma validate_Sections_all_null:
  "\<forall>k\<in>set section_keys. map_of d k = Some JNull \<Longrightarrow>
     validate_Sections as_int (JDict d) = Some no_sections"
  by (simp add: validate_Sections_def section_keys_def validate_section_field_null
      no_sections_def)

text \<open>
  C10. A payload that lacks one of the eight keys of \<open>Sections\<close> does not validate, and
  the outcome of the item is a failure (\<open>process_text\<close> returns \<open>None\<close>). A payload
  validates exactly when each of the eight fields does; a field whose value is \<open>null\<close>
  validates (to \<open>None\<close>), and the payload with all eight keys \<open>null\<close> validates.
\<close>

theorem sections_keys_required:
  "(k \<in> set section_keys \<and> map_of d k = None \<longrightarrow>
      validate_Sections as_int (JDict d) = None \<and>
      attempt_outcome as_int (ModelResponse (Some (JDict d))) = Inl ValidationError \<and>
      (model (length (calls w)) td = ModelResponse (Some (JDict d)) \<longrightarrow>
         fst (process_text as_int model td w) = Inr None)) \<and>
   (validate_Sections as_int (JDict d) \<noteq> None \<longleftrightarrow>
      (\<forall>k\<in>set section_keys. validate_section_field as_int d k \<noteq> None)) \<and>
   (map_of d k = Some JNull \<longrightarrow> validate_section_field as_int d k = Some None) \<and>
   ((\<forall>k\<in>set section_keys. map_of d k = Some JNull) \<longrightarrow>
      validate_Sections as_int (JDict d) = Some no_sections)"
proof -
  have a: "validate_Sections as_int (JDict d) = None"
    if "k \<in> set section_keys" "map_of d k = None"
    using that validate_Sections_iff [of as_int d] validate_section_field_missing [of d k as_int]
    by blast
  have b: "attempt_outcome as_int (ModelResponse (Some (JDict d))) = Inl ValidationError"
    if "validate_Sections as_int (JDict d) = None"
    using that by (simp add: attempt_outcome_def)
  have c: "fst (process_text as_int model td w) = Inr None"
    if "attempt_outcome as_int (model (length (calls w)) td) = Inl ValidationError"
    using that by (simp add: process_text_is_body process_text_body_def Let_def)
  show ?thesis
    using a b c validate_Sections_iff [of as_int d] validate_section_field_null [of d k as_int]
      validate_Sections_all_null [of d as_int]
    by metis
qed

theorem sections_keys_required_witness:
  "''body'' \<in> set section_keys \<and>
   map_of (map (\<lambda>k. (k, JNull)) (remove1 ''body'' section_keys)) ''body'' = None \<and>
   validate_Sections json_int body_omitted = None \<and>
   fst (process_text json_int (\<lambda>n d. ModelResponse (Some body_omitted)) doc_A world0) = Inr None \<and>
   validate_Sections json_int all_null = Some no_sections"
proof -
  let ?d = "map (\<lambda>k. (k, JNull)) (remove1 ''body'' section_keys)"
  let ?d' = "map (\<lambda>k. (k, JNull)) section_keys"
  have k: "''body'' \<in> set section_keys" by (simp add: section_keys_def)
  have m: "map_of ?d ''body'' = None" by (simp add: section_keys_def)
  have n: "\<forall>k\<in>set section_keys. map_of ?d' k = Some JNull" by (simp add: section_keys_def)
  have r: "(\<lambda>n d. ModelResponse (Some body_omitted)) (length (calls world0)) doc_A =
      ModelResponse (Some (JDict ?d))"
    by (simp add: body_omitted_def)
  from sections_keys_required
    [of "''body''" ?d json_int "\<lambda>n d. ModelResponse (Some body_omitted)" world0 doc_A] k m r
  have 1: "validate_Sections json_int body_omitted = None"
    and 2: "fst (process_text json_int (\<lambda>n d. ModelResponse (Some body_omitted)) doc_A world0) =
      Inr None"
    by (simp_all add: body_omitted_def)
  from sections_keys_required
    [of "''body''" ?d' json_int "\<lambda>n d. ModelResponse (Some body_omitted)" world0 doc_A] n
  have 3: "validate_Sections json_int all_null = Some no_sections"
    by (simp add: all_null_def)
  show ?thesis using k m 1 2 3 by simp
qed

subsection \<open>The merge of the results\<close>

lemma map_of_store_result:
  "map_of (store_result h result) k =
     (case map_of (rev result) k of None \<Rightarrow> map_of h k | Some s \<Rightarrow> Some (model_dump s))"
  unfolding store_result_def
proof (induction result arbitrary: h)
  case Nil
  then show ?case by simp
next
  case (Cons kv result)
  then show ?case
    by (cases kv) (simp add: update_conv map_add_def split: option.split)
qed

lemma merge_results_concat:
  "merge_results existing_headings results = store_result existing_headings (successes results)"
proof -
  have "foldl store_result h rs = store_result h (concat rs)" for h rs
    by (induction rs arbitrary: h) (simp_all add: store_result_def)
  then show ?thesis by (simp add: merge_results_def successes_def)
qed

lemma map_of_merge_results:
  "map_of (merge_results E rs) k =
     (case map_of (rev (successes rs)) k of
        None \<Rightarrow> map_of E k
      | Some s \<Rightarrow> Some (model_dump s))"
  by (simp add: merge_results_concat map_of_store_result)

lemma map_of_rev_None: "map_of (rev xs) k = None \<longleftrightarrow> k \<notin> fst ` set xs"
  by (simp add: map_of_eq_None_iff)

lemma successes_simps [simp]:
  "successes [] = []"
  "successes (None # rs) = successes rs"
  "successes (Some r # rs) = r @ successes rs"
  by (simp_all add: successes_def)

text \<open>
  C3. The merged store starts from the existing one: an identifier that is the key of no
  successful result keeps the entry (or the absence of an entry) it had; an identifier
  with a successful result gets the dump of its last such result; a failure
  (\<open>None\<close>) adds nothing, and with no result at all the store is the existing one.
\<close>

theorem merge_results_retains_and_overwrites:
  "map_of (merge_results E rs) k =
     (case map_of (rev (successes rs)) k of
        None \<Rightarrow> map_of E k
      | Some s \<Rightarrow> Some (model_dump s)) \<and>
   (k \<notin> fst ` set (successes rs) \<longrightarrow> map_of (merge_results E rs) k = map_of E k) \<and>
   (k \<in> fst ` set (successes rs) \<longrightarrow>
      (\<exists>s. (k, s) \<in> set (successes rs) \<and>
         map_of (merge_results E rs) k = Some (model_dump s))) \<and>
   merge_results E (None # rs) = merge_results E rs \<and>
   merge_results E [] = E"
proof -
  have 1: "map_of (merge_results E rs) k = map_of E k" if "k \<notin> fst ` set (successes rs)"
    using that map_of_rev_None [of "successes rs" k] by (simp add: map_of_merge_results)
  have 2: "\<exists>s. (k, s) \<in> set (successes rs) \<and>
      map_of (merge_results E rs) k = Some (model_dump s)"
    if "k \<in> fst ` set (successes rs)"
  proof -
    from that obtain s where s: "map_of (rev (successes rs)) k = Some s"
      using map_of_rev_None [of "successes rs" k] by auto
    then have "(k, s) \<in> set (successes rs)" using map_of_SomeD by fastforce
    with s show ?thesis by (auto simp: map_of_merge_results)
  qed
  have 3: "merge_results E (None # rs) = merge_results E rs" "merge_results E [] = E"
    by (simp_all add: merge_results_def)
  show ?thesis using 1 2 3 map_of_merge_results by blast
qed

theorem merge_results_witness:
  "map_of (merge_results [(''X'', JNull), (''A'', JNull)] [None, Some [(''A'', no_sections)]]) ''X'' =
     Some JNull \<and>
   map_of (merge_results [(''X'', JNull), (''A'', JNull)] [None, Some [(''A'', no_sections)]]) ''A'' =
     Some (model_dump no_sections)"
proof -
  let ?E = "[(''X'', JNull), (''A'', JNull)]"
  let ?rs = "[None, Some [(''A'', no_sections)]]"
  have x: "''X'' \<notin> fst ` set (successes ?rs)" by simp
  from merge_results_retains_and_overwrites [of ?E ?rs "''X''"] x
  have 1: "map_of (merge_results ?E ?rs) ''X'' = Some JNull" by simp
  from merge_results_retains_and_overwrites [of ?E ?rs "''A''"]
  have 2: "map_of (merge_results ?E ?rs) ''A'' = Some (model_dump no_sections)" by simp
  show ?thesis using 1 2 by simp
qed

subsection \<open>The pending documents\<close>

lemma all_documents_filter:
  "all_documents E pubs =
     filter (\<lambda>doc. \<not> dict_contains E (doc_id doc)) (concat (map documents pubs))"
  by (induction pubs) (simp_all add: all_documents_def)

lemma validate_json_doc_A: "validate_TextDocument json_int json_doc_A = Some doc_A"
  by (simp add: validate_TextDocument_def json_doc_A_def doc_A_def validate_str_def
      validate_list_field_def validate_list_def validate_TextPage_def json_int_def)

lemma validate_json_doc_B: "validate_TextDocument json_int json_doc_B = Some doc_B"
  by (simp add: validate_TextDocument_def json_doc_B_def doc_B_def validate_str_def
      validate_list_field_def)

lemma validate_json_dup_pub: "validate_TextPublication json_int json_dup_pub = Some dup_pub"
  by (simp add: validate_TextPublication_def json_dup_pub_def dup_pub_def validate_str_def
      validate_list_field_def validate_list_def validate_json_doc_A)

lemma validate_json_pub: "validate_TextPublication json_int json_pub = Some pub_AB"
  by (simp add: validate_TextPublication_def json_pub_def pub_AB_def validate_str_def
      validate_list_field_def validate_list_def validate_json_doc_A validate_json_doc_B)

text \<open>
  C9. The claim: the pending documents have no duplicate identifiers, even if the source
  yields several items with one identifier. The code does not deduplicate: a
  publication that holds two documents with the identifier \<open>A\<close> validates, and both
  are pending.
\<close>

theorem pending_duplicates_counterexample:
  "validate_TextPublication json_int json_dup_pub = Some dup_pub \<and>
   all_documents [] [dup_pub] = [doc_A, doc_A] \<and>
   \<not> distinct (map doc_id (all_documents [] [dup_pub]))"
  by (simp add: validate_json_dup_pub all_documents_def dup_pub_def dict_contains_def)

text \<open>
  C9, amended. The pending documents are the documents of the loaded publications, in
  input order, whose identifier has no entry in the existing results; when the
  identifiers of the loaded documents are pairwise distinct, so are those of the pending
  documents.
\<close>

theorem pending_is_filter_of_input:
  "all_documents E pubs =
     filter (\<lambda>doc. \<not> dict_contains E (doc_id doc)) (concat (map documents pubs)) \<and>
   (distinct (map doc_id (concat (map documents pubs))) \<longrightarrow>
      distinct (map doc_id (all_documents E pubs)))"
  by (simp add: all_documents_filter distinct_map_filter)

theorem pending_is_filter_of_input_witness:
  "distinct (map doc_id (concat (map documents [pub_AB]))) \<and>
   all_documents store_A [pub_AB] = [doc_B] \<and>
   distinct (map doc_id (all_documents store_A [pub_AB]))"
proof -
  have d: "distinct (map doc_id (concat (map documents [pub_AB])))"
    by (simp add: pub_AB_def doc_A_def doc_B_def)
  have e: "filter (\<lambda>doc. \<not> dict_contains store_A (doc_id doc)) (concat (map documents [pub_AB])) =
      [doc_B]"
    by (simp add: pub_AB_def doc_A_def doc_B_def store_A_def dict_contains_def)
  from pending_is_filter_of_input [of store_A "[pub_AB]"] d e show ?thesis by simp
qed

subsection \<open>The semaphore\<close>

lemma running_update_Running:
  "i < length ts \<Longrightarrow> ts ! i \<noteq> Running \<Longrightarrow>
     length (filter (\<lambda>t. t = Running) (ts[i := Running])) =
     Suc (length (filter (\<lambda>t. t = Running) ts))"
proof (induction ts arbitrary: i)
  case Nil
  then show ?case by simp
next
  case (Cons t ts)
  then show ?case by (cases i) auto
qed

lemma running_update_Done:
  "i < length ts \<Longrightarrow> ts ! i = Running \<Longrightarrow>
     Suc (length (filter (\<lambda>t. t = Running) (ts[i := Done out]))) =
     length (filter (\<lambda>t. t = Running) ts)"
proof (induction ts arbitrary: i)
  case Nil
  then show ?case by simp
next
  case (Cons t ts)
  then show ?case by (cases i) auto
qed

text \<open>Every event keeps the sum of the running tasks and the free units.\<close>

lemma step_invariant:
  "step e s = Some s' \<Longrightarrow> running s' + sem_value s' = running s + sem_value s"
proof (cases e)
  case (Acquire i)
  assume "step e s = Some s'"
  with Acquire have h: "i < length (tasks s)" "tasks s ! i = Waiting" "0 < sem_value s"
    and s': "s' = s\<lparr>sem_value := sem_value s - 1, tasks := (tasks s)[i := Running]\<rparr>"
    by (auto split: if_splits)
  from h have "running s' = Suc (running s)"
    unfolding running_def s' using running_update_Running [of i "tasks s"] by simp
  with h s' show ?thesis by simp
next
  case (Exit i out)
  assume "step e s = Some s'"
  with Exit have h: "i < length (tasks s)" "tasks s ! i = Running"
    and s': "s' = s\<lparr>sem_value := sem_value s + 1, tasks := (tasks s)[i := Done out]\<rparr>"
    by (auto split: if_splits)
  from h have "Suc (running s') = running s"
    unfolding running_def s' using running_update_Done [of i "tasks s" out] by simp
  with h s' show ?thesis by simp
qed

lemma run_schedule_invariant:
  "run_schedule es s = Some s' \<Longrightarrow> running s' + sem_value s' = running s + sem_value s"
proof (induction es arbitrary: s)
  case Nil
  then show ?case by simp
next
  case (Cons e es)
  then show ?case by (auto split: option.splits dest: step_invariant)
qed

lemma running_start: "running (start n m) = 0"
  by (simp add: running_def start_def)

text \<open>With the semaphore at 0 a waiting task is not admitted.\<close>

lemma acquire_refused_at_capacity:
  "run_schedule [Acquire 0, Acquire 1] (start 1 2) = None"
  by (simp add: start_def eval_nat_numeral)

text \<open>
  C5. In every state that a schedule of the tasks reaches from the start with capacity
  \<open>max_concurrency\<close>, the tasks inside \<open>async with semaphore\<close> (those running
  \<open>process_text\<close>) and the free units add up to the capacity, so no more than
  \<open>max_concurrency\<close> tasks run. A task that leaves the block, by a return or by an
  exception, gives one unit back.
\<close>

theorem semaphore_bounds_running:
  "(run_schedule es (start max_concurrency n) = Some s \<longrightarrow>
      running s + sem_value s = max_concurrency \<and> running s \<le> max_concurrency) \<and>
   (step (Exit i out) s = Some s' \<longrightarrow>
      sem_value s' = sem_value s + 1 \<and> running s' + 1 = running s)"
proof -
  have 1: "running s + sem_value s = max_concurrency"
    if "run_schedule es (start max_concurrency n) = Some s"
    using run_schedule_invariant [OF that] by (simp add: running_start) (simp add: start_def)
  have 2: "sem_value s' = sem_value s + 1 \<and> running s' + 1 = running s"
    if "step (Exit i out) s = Some s'"
    using that step_invariant [OF that] by (auto split: if_splits)
  show ?thesis using 1 2 by auto
qed

theorem semaphore_bounds_running_witness:
  "run_schedule [Acquire 0, Exit 0 (Some ApiError), Acquire 1] (start 1 2) =
     Some \<lparr>sem_value = 0, tasks = [Done (Some ApiError), Running]\<rparr> \<and>
   running \<lparr>sem_value = 0, tasks = [Done (Some ApiError), Running]\<rparr> \<le> 1 \<and>
   step (Exit 1 None) \<lparr>sem_value = 0, tasks = [Done (Some ApiError), Running]\<rparr> =
     Some \<lparr>sem_value = 1, tasks = [Done (Some ApiError), Done None]\<rparr> \<and>
   sem_value \<lparr>sem_value = 1, tasks = [Done (Some ApiError), Done None]\<rparr> =
     sem_value \<lparr>sem_value = 0, tasks = [Done (Some ApiError), Running]\<rparr> + 1"
proof -
  let ?s = "\<lparr>sem_value = 0, tasks = [Done (Some ApiError), Running]\<rparr>"
  let ?s' = "\<lparr>sem_value = 1, tasks = [Done (Some ApiError), Done None]\<rparr>"
  have r: "run_schedule [Acquire 0, Exit 0 (Some ApiError), Acquire 1] (start 1 2) = Some ?s"
    by (simp add: start_def eval_nat_numeral)
  have e: "step (Exit 1 None) ?s = Some ?s'" by simp
  from semaphore_bounds_running
    [of "[Acquire 0, Exit 0 (Some ApiError), Acquire 1]" 1 2 ?s 1 None ?s'] r e
  show ?thesis by simp
qed

subsection \<open>The run as a whole\<close>

lemma parse_publications_eq:
  "parse_publications as_int content pubs w =
     (pubs @ valid_publications as_int content,
      w\<lparr>errors := errors w @ parse_errors as_int content\<rparr>)"
proof (induction content arbitrary: pubs w)
  case Nil
  then show ?case by (simp add: valid_publications_def parse_errors_def List.map_filter_simps)
next
  case (Cons x xs)
  then show ?case
    by (cases "validate_TextPublication as_int x")
       (simp_all add: valid_publications_def parse_errors_def List.map_filter_simps)
qed

lemma process_text_eq:
  "process_text as_int model d w =
     (Inr (result_of d (attempt_outcome as_int (model (length (calls w)) d))),
      w\<lparr>calls := calls w @ [d],
        errors := errors w @ text_errors [attempt_outcome as_int (model (length (calls w)) d)]\<rparr>)"
  by (simp add: process_text_is_body process_text_body_def Let_def result_of_def text_errors_def
      split: sum.split)

lemma text_errors_Cons: "text_errors (a # as) = text_errors [a] @ text_errors as"
  by (simp add: text_errors_def)

lemma gather_eq:
  "gather as_int model ds w =
     (Inr (results_of ds (answers as_int model (length (calls w)) ds)),
      w\<lparr>calls := calls w @ ds,
        errors := errors w @ text_errors (answers as_int model (length (calls w)) ds)\<rparr>)"
proof (induction ds arbitrary: w)
  case Nil
  then show ?case by (simp add: results_of_def text_errors_def)
next
  case (Cons d ds)
  show ?case
    apply (simp add: process_with_semaphore_def process_text_eq Cons.IH results_of_def)
    apply (subst (2) text_errors_Cons)
    apply simp
    done
qed

lemma run_unfold:
  "process_documents_concurrently as_int model max_concurrency w =
     (case load_existing w of
        Inl e \<Rightarrow> raise_logged e w
      | Inr E \<Rightarrow>
          (case load_content w of
             Inl e \<Rightarrow> raise_logged e w
           | Inr content \<Rightarrow> run_result as_int model max_concurrency w E content))"
  by (simp add: process_documents_concurrently_def run_result_def parse_publications_eq
      gather_eq Let_def raise_logged_def split: sum.split)

lemma pending_not_contained:
  "d \<in> set (all_documents E pubs) \<Longrightarrow> \<not> dict_contains E (doc_id d)"
  by (simp add: all_documents_filter)

lemma successes_results_of_Cons:
  "successes (results_of (d # ds) (a # as)) =
     (case a of Inl e \<Rightarrow> [] | Inr s \<Rightarrow> [(doc_id d, s)]) @ successes (results_of ds as)"
  by (simp add: results_of_def result_of_def split: sum.split)

lemma length_answers [simp]: "length (answers as_int model n ds) = length ds"
  by (induction ds arbitrary: n) simp_all

lemma successes_results_of_iff:
  "(k, s) \<in> set (successes (results_of ds (answers as_int model n ds))) \<longleftrightarrow>
     (\<exists>i<length ds. doc_id (ds ! i) = k \<and> attempt_outcome as_int (model (n + i) (ds ! i)) = Inr s)"
proof (induction ds arbitrary: n)
  case Nil
  then show ?case by (simp add: results_of_def)
next
  case (Cons d ds)
  have "(\<exists>i<length (d # ds). doc_id ((d # ds) ! i) = k \<and>
           attempt_outcome as_int (model (n + i) ((d # ds) ! i)) = Inr s) \<longleftrightarrow>
        (doc_id d = k \<and> attempt_outcome as_int (model n d) = Inr s) \<or>
        (\<exists>i<length ds. doc_id (ds ! i) = k \<and>
           attempt_outcome as_int (model (Suc n + i) (ds ! i)) = Inr s)"
    by (auto simp: less_Suc_eq_0_disj)
  then show ?case
    using Cons.IH [of "Suc n"]
    by (auto simp: successes_results_of_Cons split: sum.splits)
qed

lemma successes_keys_pending:
  "k \<in> fst ` set (successes (results_of ds (answers as_int model n ds))) \<Longrightarrow> k \<in> doc_id ` set ds"
proof -
  assume "k \<in> fst ` set (successes (results_of ds (answers as_int model n ds)))"
  then obtain s where "(k, s) \<in> set (successes (results_of ds (answers as_int model n ds)))"
    by force
  then show ?thesis by (auto simp: successes_results_of_iff)
qed

lemma merge_keeps_existing:
  assumes "map_of E k = Some v"
  shows "map_of (merge_results E (results_of (all_documents E pubs)
           (answers as_int model n (all_documents E pubs)))) k = Some v"
proof -
  have "k \<notin> doc_id ` set (all_documents E pubs)"
    using assms pending_not_contained [of _ E pubs] by (auto simp: dict_contains_def)
  then have "k \<notin> fst ` set (successes (results_of (all_documents E pubs)
      (answers as_int model n (all_documents E pubs))))"
    using successes_keys_pending by blast
  then have "map_of (rev (successes (results_of (all_documents E pubs)
      (answers as_int model n (all_documents E pubs))))) k = None"
    by (simp add: map_of_rev_None)
  then show ?thesis
    using assms by (simp add: map_of_merge_results)
qed

text \<open>
  C4. An identifier with an entry in the output file at the start of the run is the
  identifier of no pending document (whatever the publications are), no call of the
  model made during the run is for a document with that identifier, and however the run
  ends the output file holds the same entry for it.
\<close>

theorem existing_entries_untouched:
  "output_file w = Holds E \<and> map_of E k = Some v \<and>
   process_documents_concurrently as_int model max_concurrency w = (st, w') \<longrightarrow>
     k \<notin> doc_id ` set (all_documents E pubs) \<and>
     (\<exists>cs. calls w' = calls w @ cs \<and> k \<notin> doc_id ` set cs) \<and>
     (\<exists>H. output_file w' = Holds H \<and> map_of H k = Some v)"
proof (intro impI, elim conjE)
  assume o: "output_file w = Holds E" and k: "map_of E k = Some v"
    and r: "process_documents_concurrently as_int model max_concurrency w = (st, w')"
  have p: "k \<notin> doc_id ` set (all_documents E ps)" for ps
    using k pending_not_contained [of _ E ps] by (auto simp: dict_contains_def)
  have le: "load_existing w = Inr E" using o by (simp add: load_existing_def)
  show "k \<notin> doc_id ` set (all_documents E pubs) \<and>
     (\<exists>cs. calls w' = calls w @ cs \<and> k \<notin> doc_id ` set cs) \<and>
     (\<exists>H. output_file w' = Holds H \<and> map_of H k = Some v)"
  proof (cases "load_content w")
    case (Inl e)
    with r le o k have "calls w' = calls w @ []" "output_file w' = Holds E"
      by (auto simp: run_unfold raise_logged_def)
    with k p show ?thesis by auto
  next
    case (Inr content)
    let ?ds = "all_documents E (valid_publications as_int content)"
    let ?H = "merge_results E (results_of ?ds (answers as_int model (length (calls w)) ?ds))"
    from r le Inr have
      "(calls w' = calls w @ [] \<or> calls w' = calls w @ ?ds) \<and>
       (output_file w' = Holds E \<or> output_file w' = Holds ?H)"
      by (auto simp: run_unfold run_result_def Let_def raise_logged_def o split: if_splits)
    moreover have "map_of ?H k = Some v" using k by (rule merge_keeps_existing)
    ultimately show ?thesis using k p [of pubs] p [of "valid_publications as_int content"]
      by (metis empty_iff image_empty list.set(1))
  qed
qed

lemma valid_publications_one_bad:
  assumes "validate_TextPublication as_int bad = None"
    and "\<forall>x\<in>set (xs @ ys). validate_TextPublication as_int x \<noteq> None"
  shows "valid_publications as_int (xs @ [bad] @ ys) =
           map (the \<circ> validate_TextPublication as_int) (xs @ ys)"
    and "parse_errors as_int (xs @ [bad] @ ys) = [PublicationParseError]"
proof -
  have f: "filter (\<lambda>x. validate_TextPublication as_int x \<noteq> None) xs = xs"
    "filter (\<lambda>x. validate_TextPublication as_int x \<noteq> None) ys = ys"
    "filter (\<lambda>x. validate_TextPublication as_int x = None) xs = []"
    "filter (\<lambda>x. validate_TextPublication as_int x = None) ys = []"
    using assms(2) by (auto simp: filter_id_conv filter_empty_conv)
  show "valid_publications as_int (xs @ [bad] @ ys) =
           map (the \<circ> validate_TextPublication as_int) (xs @ ys)"
    using assms(1) f by (simp add: valid_publications_def List.map_filter_def)
  show "parse_errors as_int (xs @ [bad] @ ys) = [PublicationParseError]"
    using assms(1) f by (simp add: parse_errors_def)
qed

lemma existing_of_load:
  "output_file w \<noteq> Unreadable \<Longrightarrow> load_existing w = Inr (existing_of w)"
  by (cases "output_file w") (simp_all add: load_existing_def existing_of_def)

lemma run_returns:
  assumes "output_file w \<noteq> Unreadable" "input_file w = Holds j" "iterate j = Inr content"
    "writable w" "0 < max_concurrency"
  shows "process_documents_concurrently as_int model max_concurrency w =
     (let E = existing_of w;
          ds = all_documents E (valid_publications as_int content);
          as = answers as_int model (length (calls w)) ds;
          H = merge_results E (results_of ds as)
      in (Returned,
          w\<lparr>calls := calls w @ ds,
            errors := errors w @ parse_errors as_int content @ text_errors as @
              (if failed_docs ds H = [] then [] else [FailedDocs (failed_docs ds H)]),
            output_file := Holds H\<rparr>))"
  using assms
  by (simp add: run_unfold existing_of_load load_content_def run_result_def Let_def)

text \<open>One item of the input array that is no valid publication, among valid ones.\<close>

lemma one_invalid_publication:
  "input_file w = Holds (JList (xs @ [bad] @ ys)) \<and>
   validate_TextPublication as_int bad = None \<and>
   (\<forall>x\<in>set (xs @ ys). validate_TextPublication as_int x \<noteq> None) \<and>
   output_file w \<noteq> Unreadable \<and> writable w \<and> 0 < max_concurrency \<and>
   process_documents_concurrently as_int model max_concurrency w = (st, w') \<longrightarrow>
     parse_publications as_int (xs @ [bad] @ ys) [] w =
       (map (the \<circ> validate_TextPublication as_int) (xs @ ys),
        w\<lparr>errors := errors w @ [PublicationParseError]\<rparr>) \<and>
     st = Returned \<and>
     calls w' = calls w @
       all_documents (existing_of w) (map (the \<circ> validate_TextPublication as_int) (xs @ ys)) \<and>
     take 1 (drop (length (errors w)) (errors w')) = [PublicationParseError]"
proof (intro impI, elim conjE)
  assume i: "input_file w = Holds (JList (xs @ [bad] @ ys))"
    and b: "validate_TextPublication as_int bad = None"
    and v: "\<forall>x\<in>set (xs @ ys). validate_TextPublication as_int x \<noteq> None"
    and o: "output_file w \<noteq> Unreadable" and wr: "writable w" and n: "0 < max_concurrency"
    and r: "process_documents_concurrently as_int model max_concurrency w = (st, w')"
  note vp = valid_publications_one_bad [OF b v]
  have it: "iterate (JList (xs @ [bad] @ ys)) = Inr (xs @ [bad] @ ys)"
    by (simp add: iterate_def)
  have 1: "parse_publications as_int (xs @ [bad] @ ys) [] w =
       (map (the \<circ> validate_TextPublication as_int) (xs @ ys),
        w\<lparr>errors := errors w @ [PublicationParseError]\<rparr>)"
    using vp by (simp only: parse_publications_eq append_Nil)
  from r run_returns [OF o i it wr n, of as_int model]
  have 2: "st = Returned"
    and 3: "calls w' = calls w @
       all_documents (existing_of w) (map (the \<circ> validate_TextPublication as_int) (xs @ ys))"
    and 4: "take 1 (drop (length (errors w)) (errors w')) = [PublicationParseError]"
    using vp by (auto simp: Let_def)
  from 1 2 3 4
  show "parse_publications as_int (xs @ [bad] @ ys) [] w =
       (map (the \<circ> validate_TextPublication as_int) (xs @ ys),
        w\<lparr>errors := errors w @ [PublicationParseError]\<rparr>) \<and>
     st = Returned \<and>
     calls w' = calls w @
       all_documents (existing_of w) (map (the \<circ> validate_TextPublication as_int) (xs @ ys)) \<and>
     take 1 (drop (length (errors w)) (errors w')) = [PublicationParseError]"
    by blast
qed

lemma those_None:
  "x \<in> set xs \<Longrightarrow> f x = None \<Longrightarrow> those (map f xs) = None"
  by (induction xs) (auto split: option.split)

lemma invalid_document_invalid_publication:
  assumes "map_of d ''documents'' = Some (JList docs)" "doc \<in> set docs"
    "validate_TextDocument as_int doc = None"
  shows "validate_TextPublication as_int (JDict d) = None"
proof -
  have "validate_list_field (validate_TextDocument as_int) d ''documents'' = None"
    using assms those_None [of doc docs "validate_TextDocument as_int"]
    by (simp add: validate_list_field_def validate_list_def)
  then show ?thesis
    by (simp add: validate_TextPublication_def split: Option.bind_split)
qed

text \<open>
  C8, amended. Validation is per top-level publication entry of the input array. A
  publication one of whose documents does not validate does not validate, so its valid
  documents are dropped with it. When one entry of the input array does not validate as a
  publication and the others do, the load loop returns the other publications, in order,
  and logs one error; the run is not aborted: it returns, and the model is called for
  every document of the other publications that has no entry in the existing results.
\<close>

theorem malformed_publication_dropped:
  "(map_of d ''documents'' = Some (JList docs) \<and> doc \<in> set docs \<and>
    validate_TextDocument as_int doc = None \<longrightarrow>
      validate_TextPublication as_int (JDict d) = None) \<and>
   (input_file w = Holds (JList (xs @ [bad] @ ys)) \<and>
    validate_TextPublication as_int bad = None \<and>
    (\<forall>x\<in>set (xs @ ys). validate_TextPublication as_int x \<noteq> None) \<and>
    output_file w \<noteq> Unreadable \<and> writable w \<and> 0 < max_concurrency \<and>
    process_documents_concurrently as_int model max_concurrency w = (st, w') \<longrightarrow>
      parse_publications as_int (xs @ [bad] @ ys) [] w =
        (map (the \<circ> validate_TextPublication as_int) (xs @ ys),
         w\<lparr>errors := errors w @ [PublicationParseError]\<rparr>) \<and>
      st = Returned \<and>
      calls w' = calls w @
        all_documents (existing_of w) (map (the \<circ> validate_TextPublication as_int) (xs @ ys)) \<and>
      take 1 (drop (length (errors w)) (errors w')) = [PublicationParseError])"
  using invalid_document_invalid_publication [of d docs doc as_int]
    one_invalid_publication [of w xs bad ys as_int max_concurrency model st w']
  by blast

lemma filter_only:
  "distinct xs \<Longrightarrow> a \<in> set xs \<Longrightarrow> (\<forall>x\<in>set xs. P x \<longleftrightarrow> x = a) \<Longrightarrow> filter P xs = [a]"
proof (induction xs)
  case Nil
  then show ?case by simp
next
  case (Cons x xs)
  show ?case
  proof (cases "x = a")
    case True
    with Cons.prems have "a \<notin> set xs" "\<forall>y\<in>set xs. \<not> P y" "P x" by auto
    then show ?thesis using True by (simp add: filter_empty_conv)
  next
    case False
    with Cons show ?thesis by auto
  qed
qed

lemma successes_of_distinct:
  assumes dist: "distinct (map doc_id ds)" and d: "d \<in> set ds"
  shows "(doc_id d, s) \<in> set (successes (results_of ds (answers as_int model n ds))) \<longleftrightarrow>
           (\<exists>i<length ds. ds ! i = d \<and> attempt_outcome as_int (model (n + i) d) = Inr s)"
proof -
  have inj: "inj_on doc_id (set ds)" using dist by (simp add: distinct_map)
  have "ds ! i = d" if "i < length ds" "doc_id (ds ! i) = doc_id d" for i
    using that inj d by (auto dest: inj_onD)
  then show ?thesis
    unfolding successes_results_of_iff by auto
qed

lemma failing_has_no_entry:
  assumes dist: "distinct (map doc_id ds)" and d: "d \<in> set ds"
    and pend: "\<not> dict_contains E (doc_id d)"
    and fails: "\<forall>n. \<exists>e. attempt_outcome as_int (model n d) = Inl e"
  shows "map_of (merge_results E (results_of ds (answers as_int model n ds))) (doc_id d) = None"
proof -
  let ?S = "successes (results_of ds (answers as_int model n ds))"
  have "(doc_id d, s) \<notin> set ?S" for s
  proof
    assume "(doc_id d, s) \<in> set ?S"
    then obtain i where "attempt_outcome as_int (model (n + i) d) = Inr s"
      by (auto simp: successes_of_distinct [OF dist d])
    moreover obtain e where "attempt_outcome as_int (model (n + i) d) = Inl e"
      using fails by blast
    ultimately show False by simp
  qed
  then have "doc_id d \<notin> fst ` set ?S" by force
  then have "map_of (rev ?S) (doc_id d) = None" by (simp add: map_of_rev_None)
  then show ?thesis using pend by (simp add: map_of_merge_results dict_contains_def)
qed

lemma succeeding_has_entry:
  assumes dist: "distinct (map doc_id ds)" and d: "d \<in> set ds"
    and ok: "\<forall>n. attempt_outcome as_int (model n d) = Inr s"
  shows "map_of (merge_results E (results_of ds (answers as_int model n ds))) (doc_id d) =
           Some (model_dump s)"
proof -
  let ?S = "successes (results_of ds (answers as_int model n ds))"
  from d obtain i where "i < length ds" "ds ! i = d" by (auto simp: in_set_conv_nth)
  then have "(doc_id d, s) \<in> set ?S"
    using ok by (auto simp: successes_of_distinct [OF dist d])
  then have "doc_id d \<in> fst ` set ?S" by force
  then obtain s' where s': "map_of (rev ?S) (doc_id d) = Some s'"
    using map_of_rev_None [of ?S "doc_id d"] by auto
  then have "(doc_id d, s') \<in> set ?S" using map_of_SomeD by fastforce
  then have "s' = s" using ok by (auto simp: successes_of_distinct [OF dist d])
  with s' show ?thesis by (simp add: map_of_merge_results)
qed

text \<open>
  C6, amended. In a run whose pending documents have pairwise distinct identifiers, if every
  attempt for the pending document \<open>A\<close> fails and every attempt for the pending
  document \<open>B\<close> succeeds with sections \<open>s\<close>, then the run returns, the written store
  holds the dump of \<open>s\<close> for \<open>B\<close> and no entry for \<open>A\<close>, and the last error logged
  is the list of the identifiers of the pending documents with no entry in the written
  store (line 184); that list contains \<open>A\<close> and not \<open>B\<close>, and is \<open>[A]\<close> when every
  other pending document has an entry.
\<close>

theorem partial_failure_isolated:
  "output_file w \<noteq> Unreadable \<and> input_file w = Holds (JList content) \<and> writable w \<and>
   0 < max_concurrency \<and>
   ds = all_documents (existing_of w) (valid_publications as_int content) \<and>
   distinct (map doc_id ds) \<and> A \<in> set ds \<and> B \<in> set ds \<and>
   (\<forall>n. \<exists>e. attempt_outcome as_int (model n A) = Inl e) \<and>
   (\<forall>n. attempt_outcome as_int (model n B) = Inr s) \<and>
   process_documents_concurrently as_int model max_concurrency w = (st, w') \<longrightarrow>
     st = Returned \<and>
     (\<exists>H. output_file w' = Holds H \<and>
        map_of H (doc_id B) = Some (model_dump s) \<and>
        map_of H (doc_id A) = None \<and>
        last (errors w') = FailedDocs (failed_docs ds H) \<and>
        doc_id A \<in> set (failed_docs ds H) \<and>
        doc_id B \<notin> set (failed_docs ds H) \<and>
        ((\<forall>d\<in>set ds. d \<noteq> A \<longrightarrow> dict_contains H (doc_id d)) \<longrightarrow>
           failed_docs ds H = [doc_id A]))"
proof (intro impI, elim conjE)
  assume o: "output_file w \<noteq> Unreadable" and i: "input_file w = Holds (JList content)"
    and wr: "writable w" and n: "0 < max_concurrency"
    and ds: "ds = all_documents (existing_of w) (valid_publications as_int content)"
    and dist: "distinct (map doc_id ds)" and A: "A \<in> set ds" and B: "B \<in> set ds"
    and fa: "\<forall>n. \<exists>e. attempt_outcome as_int (model n A) = Inl e"
    and ok: "\<forall>n. attempt_outcome as_int (model n B) = Inr s"
    and r: "process_documents_concurrently as_int model max_concurrency w = (st, w')"
  let ?H = "merge_results (existing_of w)
    (results_of ds (answers as_int model (length (calls w)) ds))"
  have it: "iterate (JList content) = Inr content" by (simp add: iterate_def)
  have pa: "\<not> dict_contains (existing_of w) (doc_id A)"
    using A ds pending_not_contained by blast
  have hA: "map_of ?H (doc_id A) = None"
    using dist A pa fa by (rule failing_has_no_entry)
  have hB: "map_of ?H (doc_id B) = Some (model_dump s)"
    using dist B ok by (rule succeeding_has_entry)
  have fA: "doc_id A \<in> set (failed_docs ds ?H)"
    using hA A by (auto simp: failed_docs_def dict_contains_def)
  have fB: "doc_id B \<notin> set (failed_docs ds ?H)"
  proof
    assume "doc_id B \<in> set (failed_docs ds ?H)"
    then obtain d where "d \<in> set ds" "doc_id d = doc_id B" "\<not> dict_contains ?H (doc_id d)"
      by (auto simp: failed_docs_def)
    then show False using hB by (simp add: dict_contains_def)
  qed
  have only: "failed_docs ds ?H = [doc_id A]"
    if "\<forall>d\<in>set ds. d \<noteq> A \<longrightarrow> dict_contains ?H (doc_id d)"
  proof -
    have "distinct ds" using dist by (simp add: distinct_map)
    moreover have "\<forall>d\<in>set ds. \<not> dict_contains ?H (doc_id d) \<longleftrightarrow> d = A"
      using that hA by (auto simp: dict_contains_def)
    ultimately have "filter (\<lambda>d. \<not> dict_contains ?H (doc_id d)) ds = [A]"
      using A by (intro filter_only) auto
    then show ?thesis by (simp add: failed_docs_def)
  qed
  have ne: "failed_docs ds ?H \<noteq> []" using fA by auto
  from r run_returns [OF o i it wr n, of as_int model] ds ne
  have st: "st = Returned" and out: "output_file w' = Holds ?H"
    and la: "last (errors w') = FailedDocs (failed_docs ds ?H)"
    by (auto simp: Let_def)
  show "st = Returned \<and>
     (\<exists>H. output_file w' = Holds H \<and>
        map_of H (doc_id B) = Some (model_dump s) \<and>
        map_of H (doc_id A) = None \<and>
        last (errors w') = FailedDocs (failed_docs ds H) \<and>
        doc_id A \<in> set (failed_docs ds H) \<and>
        doc_id B \<notin> set (failed_docs ds H) \<and>
        ((\<forall>d\<in>set ds. d \<noteq> A \<longrightarrow> dict_contains H (doc_id d)) \<longrightarrow>
           failed_docs ds H = [doc_id A]))"
    using st out la hA hB fA fB only by blast
qed

subsection \<open>The example runs\<close>

lemma validate_JNull: "validate_TextPublication as_int JNull = None"
  by (simp add: validate_TextPublication_def)

lemma valid_publications_example:
  "valid_publications json_int [json_pub] = [pub_AB]"
  "valid_publications json_int [JNull, json_pub] = [pub_AB]"
  by (simp_all add: valid_publications_def List.map_filter_simps validate_json_pub
      validate_JNull)

lemma attempt_outcome_all_null:
  "attempt_outcome json_int (ModelResponse (Some all_null)) = Inr no_sections"
  using validate_Sections_all_null [of "map (\<lambda>k. (k, JNull)) section_keys" json_int]
  by (simp add: attempt_outcome_def all_null_def section_keys_def)

lemma doc_ids [simp]: "doc_id doc_A = ''A''" "doc_id doc_B = ''B''"
  by (simp_all add: doc_A_def doc_B_def)

lemma pending_examples:
  "all_documents (existing_of world0) [pub_AB] = [doc_A, doc_B]"
  "all_documents (existing_of world_bad) [pub_AB] = [doc_A, doc_B]"
  "all_documents (existing_of world_A) [pub_AB] = [doc_B]"
  by (simp_all add: all_documents_def existing_of_def world0_def world_A_def world_bad_def
      pub_AB_def dict_contains_def store_A_def)

theorem existing_entries_untouched_witness:
  "output_file world_A = Holds store_A \<and> map_of store_A ''A'' = Some JNull \<and>
   ''A'' \<notin> doc_id ` set (all_documents store_A [pub_AB]) \<and>
   (\<exists>cs. calls (snd (process_documents_concurrently json_int model_ok 5 world_A)) =
      calls world_A @ cs \<and> ''A'' \<notin> doc_id ` set cs) \<and>
   (\<exists>H. output_file (snd (process_documents_concurrently json_int model_ok 5 world_A)) = Holds H \<and>
      map_of H ''A'' = Some JNull)"
proof -
  have o: "output_file world_A = Holds store_A" by (simp add: world_A_def)
  have m: "map_of store_A ''A'' = Some JNull" by (simp add: store_A_def)
  have r: "process_documents_concurrently json_int model_ok 5 world_A =
      (fst (process_documents_concurrently json_int model_ok 5 world_A),
       snd (process_documents_concurrently json_int model_ok 5 world_A))"
    by simp
  from existing_entries_untouched [of world_A store_A "''A''" JNull json_int model_ok 5
      "fst (process_documents_concurrently json_int model_ok 5 world_A)"
      "snd (process_documents_concurrently json_int model_ok 5 world_A)" "[pub_AB]"] o m r
  show ?thesis by blast
qed

lemma example_run_A:
  "process_documents_concurrently json_int model_ok 5 world_A =
     (Returned, world_A\<lparr>calls := [doc_B],
        output_file := Holds [(''A'', JNull), (''B'', model_dump no_sections)]\<rparr>)"
proof -
  have "output_file world_A \<noteq> Unreadable" "input_file world_A = Holds (JList [json_pub])"
    "iterate (JList [json_pub]) = Inr [json_pub]" "writable world_A" "calls world_A = []"
    "errors world_A = []" "existing_of world_A = store_A"
    by (simp_all add: world_A_def world0_def iterate_def existing_of_def)
  then show ?thesis
    using pending_examples(3)
    by (simp add: run_returns [where j = "JList [json_pub]" and content = "[json_pub]"]
        valid_publications_example Let_def model_ok_def attempt_outcome_all_null
        results_of_def result_of_def text_errors_def parse_errors_def validate_json_pub
        merge_results_def store_result_def failed_docs_def dict_contains_def store_A_def)
qed

theorem malformed_publication_dropped_witness:
  "validate_TextDocument json_int json_doc_B = Some doc_B \<and>
   validate_TextPublication json_int json_pub_Q = None \<and>
   input_file world_bad = Holds (JList [JNull, json_pub]) \<and>
   validate_TextPublication json_int JNull = None \<and>
   validate_TextPublication json_int json_pub = Some pub_AB \<and>
   fst (parse_publications json_int [JNull, json_pub] [] world_bad) = [pub_AB] \<and>
   errors (snd (parse_publications json_int [JNull, json_pub] [] world_bad)) =
     [PublicationParseError] \<and>
   fst (process_documents_concurrently json_int model_ok 5 world_bad) = Returned \<and>
   calls (snd (process_documents_concurrently json_int model_ok 5 world_bad)) = [doc_A, doc_B]"
proof -
  let ?run = "process_documents_concurrently json_int model_ok 5 world_bad"
  have i: "input_file world_bad = Holds (JList ([] @ [JNull] @ [json_pub]))"
    by (simp add: world_bad_def)
  have b: "validate_TextPublication json_int JNull = None" by (rule validate_JNull)
  have v: "\<forall>x\<in>set ([] @ [json_pub]). validate_TextPublication json_int x \<noteq> None"
    by (simp add: validate_json_pub)
  have o: "output_file world_bad \<noteq> Unreadable" "writable world_bad" "(0::int) < 5"
    "calls world_bad = []" "errors world_bad = []"
    by (simp_all add: world_bad_def world0_def)
  have r: "?run = (fst ?run, snd ?run)" by simp
  have q: "validate_TextPublication json_int json_pub_Q = None"
  proof -
    have "map_of [(''pub_id'', JStr ''Q''), (''documents'', JList [json_doc_B, JDict []])]
        ''documents'' = Some (JList [json_doc_B, JDict []])"
      "JDict [] \<in> set [json_doc_B, JDict []]"
      "validate_TextDocument json_int (JDict []) = None"
      by (simp_all add: validate_TextDocument_def)
    with malformed_publication_dropped
      [where d = "[(''pub_id'', JStr ''Q''), (''documents'', JList [json_doc_B, JDict []])]"
        and docs = "[json_doc_B, JDict []]" and doc = "JDict []" and as_int = json_int]
    show ?thesis unfolding json_pub_Q_def by blast
  qed
  from malformed_publication_dropped [where w = world_bad and xs = "[]" and bad = JNull
      and ys = "[json_pub]" and as_int = json_int and max_concurrency = 5 and model = model_ok
      and st = "fst ?run" and w' = "snd ?run"] i b v o r
  have "parse_publications json_int [JNull, json_pub] [] world_bad =
       ([pub_AB], world_bad\<lparr>errors := errors world_bad @ [PublicationParseError]\<rparr>)"
    and "fst ?run = Returned"
    and "calls (snd ?run) = all_documents (existing_of world_bad) [pub_AB]"
    by (simp_all add: validate_json_pub)
  then show ?thesis
    using i b o q by (simp add: validate_json_pub validate_json_doc_B pending_examples)
qed

theorem partial_failure_isolated_witness:
  "distinct (map doc_id [doc_A, doc_B]) \<and>
   attempt_outcome json_int (model_A_fails 0 doc_A) = Inl ApiError \<and>
   attempt_outcome json_int (model_A_fails 1 doc_B) = Inr no_sections \<and>
   fst (process_documents_concurrently json_int model_A_fails 5 world0) = Returned \<and>
   (\<exists>H. output_file (snd (process_documents_concurrently json_int model_A_fails 5 world0)) =
        Holds H \<and>
      map_of H ''B'' = Some (model_dump no_sections) \<and>
      map_of H ''A'' = None \<and>
      last (errors (snd (process_documents_concurrently json_int model_A_fails 5 world0))) =
        FailedDocs [''A''])"
proof -
  let ?run = "process_documents_concurrently json_int model_A_fails 5 world0"
  have o: "output_file world0 \<noteq> Unreadable" "input_file world0 = Holds (JList [json_pub])"
    "writable world0" "(0::int) < 5"
    by (simp_all add: world0_def)
  have ds: "all_documents (existing_of world0) (valid_publications json_int [json_pub]) =
      [doc_A, doc_B]"
    by (simp add: valid_publications_example pending_examples)
  have dist: "distinct (map doc_id [doc_A, doc_B])" by simp
  have fa: "\<forall>n. \<exists>e. attempt_outcome json_int (model_A_fails n doc_A) = Inl e"
    by (simp add: model_A_fails_def attempt_outcome_def)
  have ok: "\<forall>n. attempt_outcome json_int (model_A_fails n doc_B) = Inr no_sections"
    by (simp add: model_A_fails_def attempt_outcome_all_null)
  from partial_failure_isolated [of world0 "[json_pub]" 5 "[doc_A, doc_B]" json_int doc_A doc_B
      model_A_fails no_sections "fst ?run" "snd ?run"] o dist fa ok
  obtain H where st: "fst ?run = Returned" and H: "output_file (snd ?run) = Holds H"
    and hB: "map_of H ''B'' = Some (model_dump no_sections)" and hA: "map_of H ''A'' = None"
    and la: "last (errors (snd ?run)) = FailedDocs (failed_docs [doc_A, doc_B] H)"
    and only: "(\<forall>d\<in>set [doc_A, doc_B]. d \<noteq> doc_A \<longrightarrow> dict_contains H (doc_id d)) \<longrightarrow>
       failed_docs [doc_A, doc_B] H = [doc_id doc_A]"
    by (auto simp: ds)
  have "\<forall>d\<in>set [doc_A, doc_B]. d \<noteq> doc_A \<longrightarrow> dict_contains H (doc_id d)"
    using hB by (simp add: dict_contains_def)
  with only have "failed_docs [doc_A, doc_B] H = [''A'']" by simp
  with st H hB hA la dist fa ok show ?thesis
    by (auto simp: model_A_fails_def attempt_outcome_def)
qed

text \<open>Validation is per publication: one document that does not validate (here a
  document with no \<open>doc_id\<close>) makes its publication invalid, valid siblings included.\<close>

lemma publication_with_malformed_document:
  "validate_TextPublication json_int
     (JDict [(''pub_id'', JStr ''Q''), (''documents'', JList [json_doc_B, JDict []])]) = None"
proof -
  have "validate_TextDocument json_int (JDict []) = None"
    by (simp add: validate_TextDocument_def)
  then show ?thesis
    by (simp add: validate_TextPublication_def validate_str_def validate_list_field_def
        validate_list_def validate_json_doc_B)
qed

subsection \<open>Running the batch again\<close>

lemma dict_contains_merge:
  "dict_contains (merge_results E rs) k \<longleftrightarrow>
     dict_contains E k \<or> k \<in> fst ` set (successes rs)"
proof (cases "map_of (rev (successes rs)) k")
  case None
  then show ?thesis
    using map_of_rev_None [of "successes rs" k]
    by (simp add: dict_contains_def map_of_merge_results)
next
  case (Some s)
  then show ?thesis
    using map_of_rev_None [of "successes rs" k]
    by (simp add: dict_contains_def map_of_merge_results)
qed

lemma results_all_None:
  assumes "\<forall>a\<in>set as. \<exists>e. a = Inl e"
  shows "merge_results H (results_of ds as) = H"
proof -
  have "filter (\<lambda>r. r \<noteq> None) (results_of ds as) = []"
    using assms
    by (auto simp: results_of_def result_of_def filter_empty_conv split: sum.splits
        dest!: set_zip_rightD)
  then show ?thesis by (simp add: merge_results_def)
qed

lemma answers_nth:
  "i < length ds \<Longrightarrow> answers as_int model n ds ! i = attempt_outcome as_int (model (n + i) (ds ! i))"
proof (induction ds arbitrary: n i)
  case Nil
  then show ?case by simp
next
  case (Cons d ds)
  then show ?case by (cases i) simp_all
qed

text \<open>Second run: the pending documents all fail again.\<close>
lemma second_run_all_fail:
  assumes st: "stationary model"
    and ds_def: "ds = all_documents E pubs"
    and H_def: "H = merge_results E (results_of ds (answers as_int model n ds))"
    and ds2_def: "ds2 = all_documents H pubs"
  shows "\<forall>a\<in>set (answers as_int model m ds2). \<exists>e. a = Inl e"
proof
  fix a assume "a \<in> set (answers as_int model m ds2)"
  then obtain i where i: "i < length ds2" and a: "a = attempt_outcome as_int (model (m + i) (ds2 ! i))"
    by (auto simp: in_set_conv_nth answers_nth)
  let ?d = "ds2 ! i"
  have d2: "?d \<in> set ds2" using i by simp
  then have nH: "\<not> dict_contains H (doc_id ?d)" and dp: "?d \<in> set (concat (map documents pubs))"
    by (simp_all add: ds2_def all_documents_filter)
  from nH have nE: "\<not> dict_contains E (doc_id ?d)"
    and nS: "doc_id ?d \<notin> fst ` set (successes (results_of ds (answers as_int model n ds)))"
    by (simp_all add: H_def dict_contains_merge)
  from nE dp have "?d \<in> set ds" by (simp add: ds_def all_documents_filter)
  then obtain j where j: "j < length ds" "ds ! j = ?d" by (auto simp: in_set_conv_nth)
  show "\<exists>e. a = Inl e"
  proof (cases a)
    case (Inl e)
    then show ?thesis by blast
  next
    case (Inr s)
    with a have "attempt_outcome as_int (model (n + j) ?d) = Inr s"
      using st by (metis stationary_def)
    with j have "(doc_id ?d, s) \<in> set (successes (results_of ds (answers as_int model n ds)))"
      by (auto simp: successes_results_of_iff)
    with nS show ?thesis by force
  qed
qed

lemma run_frame:
  assumes "process_documents_concurrently as_int model N w = (st, w')"
  shows "input_file w' = input_file w" and "writable w' = writable w"
    and "st \<noteq> Returned \<Longrightarrow> output_file w' = output_file w"
  using assms
  by (auto simp: run_unfold run_result_def Let_def raise_logged_def
      split: sum.splits if_splits)

lemma run_returned_iff:
  "fst (process_documents_concurrently as_int model N w) = Returned \<longleftrightarrow>
     output_file w \<noteq> Unreadable \<and> writable w \<and> 0 \<le> N \<and>
     (\<exists>content. load_content w = Inr content \<and>
        (N = 0 \<longrightarrow> all_documents (existing_of w) (valid_publications as_int content) = []))"
proof (cases "output_file w = Unreadable")
  case True
  then show ?thesis by (simp add: run_unfold load_existing_def raise_logged_def)
next
  case False
  then show ?thesis
    by (cases "load_content w")
       (auto simp: run_unfold existing_of_load run_result_def Let_def raise_logged_def)
qed

lemma run_returned:
  assumes "process_documents_concurrently as_int model N w = (Returned, w')"
  shows "\<exists>content. load_content w = Inr content \<and>
     w' = (let E = existing_of w;
               ds = all_documents E (valid_publications as_int content);
               as = answers as_int model (length (calls w)) ds;
               H = merge_results E (results_of ds as)
           in w\<lparr>calls := calls w @ ds,
                errors := errors w @ parse_errors as_int content @ text_errors as @
                  (if failed_docs ds H = [] then [] else [FailedDocs (failed_docs ds H)]),
                output_file := Holds H\<rparr>)"
proof -
  from assms have "fst (process_documents_concurrently as_int model N w) = Returned" by simp
  then obtain content where o: "output_file w \<noteq> Unreadable" and c: "load_content w = Inr content"
    unfolding run_returned_iff by blast
  from assms o c show ?thesis
    by (auto simp: run_unfold existing_of_load run_result_def Let_def raise_logged_def
        split: if_splits)
qed

lemma load_content_frame:
  "input_file w' = input_file w \<Longrightarrow> load_content w' = load_content w"
  by (simp add: load_content_def)

lemma not_returned_again:
  assumes r1: "process_documents_concurrently as_int model N w = (st1, w1)"
    and n1: "st1 \<noteq> Returned"
    and r2: "process_documents_concurrently as_int model N w1 = (st2, w2)"
  shows "output_file w2 = output_file w1"
proof -
  note f = run_frame [OF r1]
  have e: "existing_of w1 = existing_of w" using f(3) [OF n1] by (simp add: existing_of_def)
  have "fst (process_documents_concurrently as_int model N w) \<noteq> Returned"
    using r1 n1 by simp
  then have "fst (process_documents_concurrently as_int model N w1) \<noteq> Returned"
    unfolding run_returned_iff using f(1,2) f(3) [OF n1] e load_content_frame [OF f(1)]
    by simp
  then have "st2 \<noteq> Returned" using r2 by simp
  then show ?thesis using run_frame(3) [OF r2] by simp
qed

lemma returned_again:
  assumes st: "stationary model"
    and r1: "process_documents_concurrently as_int model N w = (Returned, w1)"
    and r2: "process_documents_concurrently as_int model N w1 = (st2, w2)"
  shows "output_file w2 = output_file w1"
proof (cases "st2 = Returned")
  case False
  then show ?thesis using run_frame(3) [OF r2] by simp
next
  case True
  from run_returned [OF r1] obtain content where c: "load_content w = Inr content"
    and w1: "w1 = (let E = existing_of w;
               ds = all_documents E (valid_publications as_int content);
               as = answers as_int model (length (calls w)) ds;
               H = merge_results E (results_of ds as)
           in w\<lparr>calls := calls w @ ds,
                errors := errors w @ parse_errors as_int content @ text_errors as @
                  (if failed_docs ds H = [] then [] else [FailedDocs (failed_docs ds H)]),
                output_file := Holds H\<rparr>)"
    by blast
  let ?pubs = "valid_publications as_int content"
  let ?ds = "all_documents (existing_of w) ?pubs"
  let ?H = "merge_results (existing_of w) (results_of ?ds (answers as_int model (length (calls w)) ?ds))"
  have o1: "output_file w1 = Holds ?H" using w1 by (simp add: Let_def)
  then have e1: "existing_of w1 = ?H" by (simp add: existing_of_def)
  have c1: "load_content w1 = Inr content"
    using c load_content_frame [OF run_frame(1) [OF r1]] by simp
  from r2 True run_returned [of as_int model N w1 w2] c1 e1
  have o2: "output_file w2 = Holds (merge_results ?H
      (results_of (all_documents ?H ?pubs)
         (answers as_int model (length (calls w1)) (all_documents ?H ?pubs))))"
    by (auto simp: Let_def)
  have "\<forall>a\<in>set (answers as_int model (length (calls w1)) (all_documents ?H ?pubs)). \<exists>e. a = Inl e"
    using st by (rule second_run_all_fail) (rule refl)+
  then have "merge_results ?H
      (results_of (all_documents ?H ?pubs)
         (answers as_int model (length (calls w1)) (all_documents ?H ?pubs))) = ?H"
    by (rule results_all_None)
  with o1 o2 show ?thesis by simp
qed

lemma nothing_pending_after_success:
  assumes r1: "process_documents_concurrently as_int model N w = (Returned, w1)"
    and nf: "\<forall>ids. FailedDocs ids \<notin> set (drop (length (errors w)) (errors w1))"
    and r2: "process_documents_concurrently as_int model N w1 = (st2, w2)"
  shows "calls w2 = calls w1 \<and> st2 = Returned"
proof -
  from run_returned [OF r1] obtain content where c: "load_content w = Inr content"
    and w1: "w1 = (let E = existing_of w;
               ds = all_documents E (valid_publications as_int content);
               as = answers as_int model (length (calls w)) ds;
               H = merge_results E (results_of ds as)
           in w\<lparr>calls := calls w @ ds,
                errors := errors w @ parse_errors as_int content @ text_errors as @
                  (if failed_docs ds H = [] then [] else [FailedDocs (failed_docs ds H)]),
                output_file := Holds H\<rparr>)"
    by blast
  let ?pubs = "valid_publications as_int content"
  let ?ds = "all_documents (existing_of w) ?pubs"
  let ?H = "merge_results (existing_of w) (results_of ?ds (answers as_int model (length (calls w)) ?ds))"
  have o1: "output_file w1 = Holds ?H" using w1 by (simp add: Let_def)
  then have e1: "existing_of w1 = ?H" by (simp add: existing_of_def)
  have c1: "load_content w1 = Inr content"
    using c load_content_frame [OF run_frame(1) [OF r1]] by simp
  have fd: "failed_docs ?ds ?H = []"
  proof (rule ccontr)
    assume "failed_docs ?ds ?H \<noteq> []"
    then have "FailedDocs (failed_docs ?ds ?H) \<in> set (drop (length (errors w)) (errors w1))"
      using w1 by (simp add: Let_def)
    with nf show False by blast
  qed
  have "all_documents ?H ?pubs = []"
  proof -
    have "dict_contains ?H (doc_id d)" if "d \<in> set (concat (map documents ?pubs))" for d
    proof (cases "dict_contains (existing_of w) (doc_id d)")
      case True
      then show ?thesis by (simp add: dict_contains_merge)
    next
      case False
      with that have "d \<in> set ?ds" by (simp add: all_documents_filter)
      with fd show ?thesis by (auto simp: failed_docs_def filter_empty_conv)
    qed
    then show ?thesis by (auto simp: all_documents_filter filter_empty_conv)
  qed
  moreover have "fst (process_documents_concurrently as_int model N w) = Returned"
    using r1 by simp
  then have "output_file w \<noteq> Unreadable \<and> writable w \<and> 0 \<le> N"
    unfolding run_returned_iff by blast
  then have wr: "writable w1" "0 \<le> N" using run_frame(2) [OF r1] by simp_all
  ultimately have "fst (process_documents_concurrently as_int model N w1) = Returned"
    unfolding run_returned_iff using o1 e1 c1 by simp
  with r2 have s2: "st2 = Returned" by simp
  with r2 run_returned [of as_int model N w1 w2] c1 e1 \<open>all_documents ?H ?pubs = []\<close>
  have "calls w2 = calls w1" by (auto simp: Let_def)
  with s2 show ?thesis by simp
qed

text \<open>
  C7. With a model whose answers do not change, a second run started in the world the
  first run left writes the store the first run wrote: the output file after the second
  run is the output file after the first, however the runs end. If the first run
  returned and reported no failed document, the second run returns and calls the model
  for no document.
\<close>

theorem resume_is_idempotent:
  "stationary model \<and>
   process_documents_concurrently as_int model N w = (st1, w1) \<and>
   process_documents_concurrently as_int model N w1 = (st2, w2) \<longrightarrow>
     output_file w2 = output_file w1 \<and>
     (st1 = Returned \<and> (\<forall>ids. FailedDocs ids \<notin> set (drop (length (errors w)) (errors w1))) \<longrightarrow>
        st2 = Returned \<and> calls w2 = calls w1)"
proof (intro impI, elim conjE)
  assume st: "stationary model"
    and r1: "process_documents_concurrently as_int model N w = (st1, w1)"
    and r2: "process_documents_concurrently as_int model N w1 = (st2, w2)"
  have a: "output_file w2 = output_file w1"
  proof (cases "st1 = Returned")
    case True
    with st r1 r2 show ?thesis using returned_again by blast
  next
    case False
    with r1 r2 show ?thesis using not_returned_again by blast
  qed
  have b: "st2 = Returned \<and> calls w2 = calls w1"
    if "st1 = Returned" "\<forall>ids. FailedDocs ids \<notin> set (drop (length (errors w)) (errors w1))"
    using nothing_pending_after_success [of as_int model N w w1 st2 w2] r1 r2 that by simp
  from a b show "output_file w2 = output_file w1 \<and>
     (st1 = Returned \<and> (\<forall>ids. FailedDocs ids \<notin> set (drop (length (errors w)) (errors w1))) \<longrightarrow>
        st2 = Returned \<and> calls w2 = calls w1)"
    by blast
qed

lemma example_run_ok:
  "process_documents_concurrently json_int model_ok 5 world0 =
     (Returned, world0\<lparr>calls := [doc_A, doc_B],
        output_file := Holds [(''A'', model_dump no_sections), (''B'', model_dump no_sections)]\<rparr>)"
proof -
  have "output_file world0 \<noteq> Unreadable" "input_file world0 = Holds (JList [json_pub])"
    "iterate (JList [json_pub]) = Inr [json_pub]" "writable world0" "calls world0 = []"
    "errors world0 = []" "existing_of world0 = []"
    by (simp_all add: world0_def iterate_def existing_of_def)
  then show ?thesis
    using pending_examples(1)
    by (simp add: run_returns [where j = "JList [json_pub]" and content = "[json_pub]"]
        valid_publications_example Let_def model_ok_def attempt_outcome_all_null
        results_of_def result_of_def text_errors_def parse_errors_def validate_json_pub
        merge_results_def store_result_def failed_docs_def dict_contains_def)
qed

theorem resume_is_idempotent_witness:
  "stationary model_ok \<and>
   fst (process_documents_concurrently json_int model_ok 5 world0) = Returned \<and>
   calls (snd (process_documents_concurrently json_int model_ok 5 world0)) = [doc_A, doc_B] \<and>
   fst (process_documents_concurrently json_int model_ok 5
     (snd (process_documents_concurrently json_int model_ok 5 world0))) = Returned \<and>
   calls (snd (process_documents_concurrently json_int model_ok 5
     (snd (process_documents_concurrently json_int model_ok 5 world0)))) = [doc_A, doc_B] \<and>
   output_file (snd (process_documents_concurrently json_int model_ok 5
     (snd (process_documents_concurrently json_int model_ok 5 world0)))) =
   output_file (snd (process_documents_concurrently json_int model_ok 5 world0))"
proof -
  let ?r1 = "process_documents_concurrently json_int model_ok 5 world0"
  let ?r2 = "process_documents_concurrently json_int model_ok 5 (snd ?r1)"
  have s: "stationary model_ok" by (simp add: stationary_def model_ok_def)
  have 1: "fst ?r1 = Returned" "calls (snd ?r1) = [doc_A, doc_B]" "errors (snd ?r1) = []"
    "errors world0 = []"
    by (simp_all add: example_run_ok) (simp_all add: world0_def)
  then have nf: "\<forall>ids. FailedDocs ids \<notin> set (drop (length (errors world0)) (errors (snd ?r1)))"
    by simp
  have r1: "?r1 = (fst ?r1, snd ?r1)" and r2: "?r2 = (fst ?r2, snd ?r2)" by simp_all
  from resume_is_idempotent [of model_ok json_int 5 world0 "fst ?r1" "snd ?r1" "fst ?r2" "snd ?r2"]
    s r1 r2 1(1) nf
  have "output_file (snd ?r2) = output_file (snd ?r1)" "fst ?r2 = Returned"
    "calls (snd ?r2) = calls (snd ?r1)"
    by blast+
  with s 1 show ?thesis by simp
qed

subsection \<open>Runs in which the claims as stated fail\<close>

lemma validate_json_doc_A2: "validate_TextDocument json_int json_doc_A2 = Some doc_A2"
  by (simp add: validate_TextDocument_def json_doc_A2_def doc_A2_def validate_str_def
      validate_list_field_def)

lemma validate_json_pub_AAB: "validate_TextPublication json_int json_pub_AAB = Some pub_AAB"
  by (simp add: validate_TextPublication_def json_pub_AAB_def pub_AAB_def validate_str_def
      validate_list_field_def validate_list_def validate_json_doc_A validate_json_doc_A2
      validate_json_doc_B)

lemma validate_json_pub_Q: "validate_TextPublication json_int json_pub_Q = None"
  unfolding json_pub_Q_def
  by (rule invalid_document_invalid_publication [where docs = "[json_doc_B, JDict []]"
        and doc = "JDict []"])
     (simp_all add: validate_TextDocument_def)

text \<open>
  C6. The claim: in every batch where the pending item \<open>A\<close> fails all its attempts and
  the pending item \<open>B\<close> succeeds, the persisted store has no entry for \<open>A\<close> and the
  failure report is \<open>[A]\<close>. The code: the input holds a document \<open>A\<close> with a page, a
  second document with the identifier \<open>A\<close> and no page, and \<open>B\<close>; all three are
  pending; the model fails the document with a page at every call and answers the two
  others. The run returns, the store has an entry for \<open>A\<close> (that of the second
  document), and no failed document is reported.
\<close>

theorem partial_failure_counterexample:
  "all_documents (existing_of world_AAB) (valid_publications json_int [json_pub_AAB]) =
     [doc_A, doc_A2, doc_B] \<and>
   (\<forall>n. attempt_outcome json_int (model_pages_fail n doc_A) = Inl ApiError) \<and>
   (\<forall>n. attempt_outcome json_int (model_pages_fail n doc_B) = Inr no_sections) \<and>
   process_documents_concurrently json_int model_pages_fail 5 world_AAB =
     (Returned,
      world_AAB\<lparr>calls := [doc_A, doc_A2, doc_B], errors := [TextProcessingError ApiError],
        output_file := Holds [(''A'', model_dump no_sections), (''B'', model_dump no_sections)]\<rparr>) \<and>
   map_of [(''A'', model_dump no_sections), (''B'', model_dump no_sections)] (doc_id doc_A) \<noteq> None \<and>
   failed_docs [doc_A, doc_A2, doc_B]
     [(''A'', model_dump no_sections), (''B'', model_dump no_sections)] = []"
proof -
  have w: "output_file world_AAB \<noteq> Unreadable" "input_file world_AAB = Holds (JList [json_pub_AAB])"
    "iterate (JList [json_pub_AAB]) = Inr [json_pub_AAB]" "writable world_AAB"
    "calls world_AAB = []" "errors world_AAB = []" "existing_of world_AAB = []"
    by (simp_all add: world_AAB_def world0_def iterate_def existing_of_def)
  have vp: "valid_publications json_int [json_pub_AAB] = [pub_AAB]"
    by (simp add: valid_publications_def List.map_filter_simps validate_json_pub_AAB)
  have pe: "parse_errors json_int [json_pub_AAB] = []"
    by (simp add: parse_errors_def validate_json_pub_AAB)
  have ds: "all_documents [] [pub_AAB] = [doc_A, doc_A2, doc_B]"
    by (simp add: all_documents_def pub_AAB_def dict_contains_def)
  have a: "attempt_outcome json_int (model_pages_fail n doc_A) = Inl ApiError" for n
    by (simp add: model_pages_fail_def doc_A_def attempt_outcome_def)
  have a2: "attempt_outcome json_int (model_pages_fail n doc_A2) = Inr no_sections" for n
    by (simp add: model_pages_fail_def doc_A2_def attempt_outcome_all_null)
  have b: "attempt_outcome json_int (model_pages_fail n doc_B) = Inr no_sections" for n
    by (simp add: model_pages_fail_def doc_B_def attempt_outcome_all_null)
  have i2: "doc_id doc_A2 = ''A''" by (simp add: doc_A2_def)
  have run: "process_documents_concurrently json_int model_pages_fail 5 world_AAB =
     (Returned,
      world_AAB\<lparr>calls := [doc_A, doc_A2, doc_B], errors := [TextProcessingError ApiError],
        output_file := Holds [(''A'', model_dump no_sections), (''B'', model_dump no_sections)]\<rparr>)"
    using w
    by (simp add: run_returns [where j = "JList [json_pub_AAB]" and content = "[json_pub_AAB]"]
        vp pe ds a a2 b i2 Let_def results_of_def result_of_def text_errors_def
        merge_results_def store_result_def failed_docs_def dict_contains_def)
  have f: "failed_docs [doc_A, doc_A2, doc_B]
     [(''A'', model_dump no_sections), (''B'', model_dump no_sections)] = []"
    by (simp add: failed_docs_def dict_contains_def i2)
  show ?thesis using w(7) vp ds a b run f by simp
qed

text \<open>
  C8. The claim: when one item of the input is malformed and the others are valid, only
  the malformed item is dropped and every other valid item is loaded and processed.
  The code: the input holds one publication with the valid document \<open>B\<close> and an object
  that is no document. The publication does not validate, so \<open>B\<close> is dropped with it:
  the run returns without a call of the model and writes an empty store.
\<close>

theorem valid_sibling_dropped_counterexample:
  "validate_TextDocument json_int json_doc_B = Some doc_B \<and>
   validate_TextDocument json_int (JDict []) = None \<and>
   json_pub_Q = JDict [(''pub_id'', JStr ''Q''), (''documents'', JList [json_doc_B, JDict []])] \<and>
   input_file world_Q = Holds (JList [json_pub_Q]) \<and>
   process_documents_concurrently json_int model_ok 5 world_Q =
     (Returned, world_Q\<lparr>errors := [PublicationParseError], output_file := Holds []\<rparr>) \<and>
   calls (snd (process_documents_concurrently json_int model_ok 5 world_Q)) = []"
proof -
  have w: "output_file world_Q \<noteq> Unreadable" "input_file world_Q = Holds (JList [json_pub_Q])"
    "iterate (JList [json_pub_Q]) = Inr [json_pub_Q]" "writable world_Q"
    "calls world_Q = []" "errors world_Q = []" "existing_of world_Q = []"
    by (simp_all add: world_Q_def world0_def iterate_def existing_of_def)
  have vp: "valid_publications json_int [json_pub_Q] = []"
    by (simp add: valid_publications_def List.map_filter_simps validate_json_pub_Q)
  have pe: "parse_errors json_int [json_pub_Q] = [PublicationParseError]"
    by (simp add: parse_errors_def validate_json_pub_Q)
  have run: "process_documents_concurrently json_int model_ok 5 world_Q =
     (Returned, world_Q\<lparr>errors := [PublicationParseError], output_file := Holds []\<rparr>)"
    using w
    by (simp add: run_returns [where j = "JList [json_pub_Q]" and content = "[json_pub_Q]"]
        vp pe all_documents_def Let_def results_of_def text_errors_def merge_results_def
        failed_docs_def)
  have "validate_TextDocument json_int (JDict []) = None"
    by (simp add: validate_TextDocument_def)
  then show ?thesis
    using w(2,5) run by (simp add: validate_json_doc_B json_pub_Q_def)
qed

end
